theory Spec2Isabelle
  imports Complex_Main
begin

section \<open>Regions plugin and drag recogniser of wavesurfer.js\<close>

text \<open>
  The development embeds the position model of \<^verbatim>\<open>class Region\<close>, the plugin
  operations of \<^verbatim>\<open>class RegionsPlugin\<close> and the pointer-move handler of
  \<^verbatim>\<open>makeDraggable\<close>.

  Conventions of the embedding.
  \<^item> A JavaScript \<^verbatim>\<open>number\<close> holding a time, a pixel count or a percentage is a
    \<^typ>\<open>real\<close>: arithmetic is exact, and the values \<^verbatim>\<open>NaN\<close> and
    \<^verbatim>\<open>Infinity\<close> are outside the type. Where the source divides, the model
    either guards the division (\<open>js_div\<close>, with \<open>None\<close> for a quotient that is not
    a finite number) or the theorem assumes a positive divisor.
  \<^item> \<^verbatim>\<open>maxLength = Infinity\<close> is \<open>None\<close> in a \<^typ>\<open>real option\<close>.
  \<^item> A \<^verbatim>\<open>side\<close> argument \<^verbatim>\<open>'start' | 'end' | null | undefined\<close> is a
    \<open>side option\<close>; \<open>None\<close> is a whole-region move.
  \<^item> What a method reads from the document (the width of the parent element, the
    geometry of the scroll container, the bounding box of the dragged element) is an
    argument of the modelled method; \<open>None\<close> stands for an element that is absent.
  \<^item> \<^verbatim>\<open>emit\<close> appends to a log kept in the state.
  \<^item> The repeating timers of \<^verbatim>\<open>setInterval\<close> are a table from handles to the
    values their callback closes over; \<^verbatim>\<open>clearInterval\<close> removes an entry.
  \<^item> The methods \<^verbatim>\<open>_onUpdate\<close> and \<^verbatim>\<open>_setTotalDuration\<close> are \<open>onUpdate\<close> and
    \<open>setTotalDuration\<close>; the field \<^verbatim>\<open>end\<close> is \<open>end'\<close>.
  \<^item> A region is modelled from its construction up to, and not including,
    \<^verbatim>\<open>remove()\<close>, which sets \<^verbatim>\<open>this.element\<close> to \<^verbatim>\<open>null\<close>.
\<close>

subsection \<open>Data of a region\<close>

datatype side = Start | End

text \<open>An element of \<^verbatim>\<open>Region.regionsList\<close>.\<close>

record region_entry =
  e_start :: real
  e_end :: real
  e_content :: string
  e_color :: string
  e_drag :: bool
  e_resize :: bool

text \<open>\<^verbatim>\<open>RegionParams\<close>; an absent optional field is \<open>None\<close>.\<close>

record region_params =
  p_id :: "string option"
  p_start :: real
  p_end :: "real option"
  p_drag :: "bool option"
  p_resize :: "bool option"
  p_color :: "string option"
  p_content :: "string option"
  p_minLength :: "real option"
  p_maxLength :: "real option"
  p_channelIdx :: "int option"
  p_contentEditable :: "bool option"

text \<open>The argument of \<^verbatim>\<open>setOptions\<close>: every field is tested against
  \<^verbatim>\<open>undefined\<close> (or for truthiness) before use.\<close>

record region_options =
  o_id :: "string option"
  o_start :: "real option"
  o_end :: "real option"
  o_drag :: "bool option"
  o_resize :: "bool option"
  o_color :: "string option"
  o_content :: "string option"

text \<open>The events of \<^verbatim>\<open>RegionEvents\<close> that the modelled methods emit. The
  \<^verbatim>\<open>update\<close> event carries \<^verbatim>\<open>side\<close> and \<^verbatim>\<open>dx\<close> (its element argument
  is a reference into the document and is left out).\<close>

datatype region_event = Update "side option" real | UpdateEnd

text \<open>What the callback given to \<^verbatim>\<open>setInterval\<close> in \<^verbatim>\<open>runScrollAdjuster\<close>
  closes over.\<close>

record interval_cb =
  cb_direction :: bool
  cb_speed :: real
  cb_dx :: real
  cb_side :: "side option"

text \<open>The fields of \<^verbatim>\<open>class Region\<close>, followed by the browser state its methods
  read and write: the table of live repeating timers, the next free timer handle, the
  scroll offset of the scroll container, and the log of emitted events.\<close>

record region =
  id :: string
  start :: real
  end' :: real
  drag :: bool
  resize :: bool
  color :: string
  content :: "string option"
  minLength :: real
  maxLength :: "real option"
  channelIdx :: int
  contentEditable :: bool
  regionsList :: "region_entry list"
  regionsListIndex :: int
  startPercentPosition :: "real option"
  endPercentPosition :: "real option"
  runScrollAdjuster_Interval :: nat
  totalDuration :: real
  numberOfChannels :: nat
  hasResizeHandles :: bool
  intervals :: "nat \<rightharpoonup> interval_cb"
  nextHandle :: nat
  scrollLeft :: real
  emitted :: "region_event list"

subsection \<open>JavaScript primitives\<close>

text \<open>\<^verbatim>\<open>a / b\<close> where the quotient is kept: \<open>None\<close> when \<^verbatim>\<open>b\<close> is zero
  (JavaScript yields \<^verbatim>\<open>NaN\<close> or an infinity).\<close>

definition js_div :: "real \<Rightarrow> real \<Rightarrow> real option" where
  "js_div a b = (if b = 0 then None else Some (a / b))"

text \<open>\<^verbatim>\<open>xs[i]\<close>: \<^verbatim>\<open>undefined\<close> outside the array.\<close>

definition js_index :: "'a list \<Rightarrow> int \<Rightarrow> 'a option" where
  "js_index xs i = (if 0 \<le> i \<and> i < int (length xs) then Some (xs ! nat i) else None)"

text \<open>\<^verbatim>\<open>length <= this.maxLength\<close> with \<open>None\<close> for \<^verbatim>\<open>Infinity\<close>.\<close>

definition le_maxLength :: "real \<Rightarrow> real option \<Rightarrow> bool" where
  "le_maxLength len m = (case m of None \<Rightarrow> True | Some b \<Rightarrow> len \<le> b)"

text \<open>\<^verbatim>\<open>a ?? b\<close>.\<close>

definition nullish :: "'a option \<Rightarrow> 'a \<Rightarrow> 'a" where
  "nullish a b = (case a of None \<Rightarrow> b | Some v \<Rightarrow> v)"

text \<open>Truthiness of an optional string: \<^verbatim>\<open>undefined\<close> and the empty string are
  falsy.\<close>

definition truthy_str :: "string option \<Rightarrow> bool" where
  "truthy_str s = (case s of None \<Rightarrow> False | Some v \<Rightarrow> v \<noteq> [])"

subsection \<open>Methods of \<^verbatim>\<open>Region\<close>\<close>

text \<open>\<^verbatim>\<open>clampPosition(time) = Math.max(0, Math.min(this.totalDuration, time))\<close>\<close>

definition clampPosition :: "real \<Rightarrow> real \<Rightarrow> real" where
  "clampPosition dur time = max 0 (min dur time)"

text \<open>\<^verbatim>\<open>stopRunScrollAdjuster\<close>: \<^verbatim>\<open>clearInterval(this.runScrollAdjuster_Interval)\<close>.\<close>

definition stopRunScrollAdjuster :: "region \<Rightarrow> region" where
  "stopRunScrollAdjuster r = r\<lparr>intervals := (intervals r)(runScrollAdjuster_Interval r := None)\<rparr>"

text \<open>\<^verbatim>\<open>renderPosition\<close>: the two percentages (the style of the element and the
  duration label are left to the rendering surface).\<close>

definition renderPosition :: "region \<Rightarrow> region" where
  "renderPosition r =
     (let s = js_div (start r) (totalDuration r);
          e = js_div (totalDuration r - end' r) (totalDuration r)
      in r\<lparr>startPercentPosition := map_option (\<lambda>v. v * 100) s,
            endPercentPosition := map_option (\<lambda>v. 100 - v * 100) e\<rparr>)"

text \<open>The constructor. \<open>rnd\<close> is the string \<^verbatim>\<open>region-<random>\<close> used when no id is
  given, \<open>h\<close> the handle that \<^verbatim>\<open>setTimeout(()=>{},0)\<close> returns. Resize handles are
  added by \<^verbatim>\<open>initElement\<close> when the region is not a marker and \<^verbatim>\<open>resize\<close> is
  set. No event is emitted, no repeating timer is started. The scroll offset of the
  container, which the constructor does not touch, is taken to be 0 at that moment.\<close>

definition Region :: "region_params \<Rightarrow> real \<Rightarrow> nat \<Rightarrow> string \<Rightarrow> nat \<Rightarrow> region" where
  "Region params dur nch rnd h =
     (let s = clampPosition dur (p_start params);
          e = clampPosition dur (nullish (p_end params) (p_start params));
          rs = nullish (p_resize params) True
      in renderPosition
        \<lparr>id = (if truthy_str (p_id params) then the (p_id params) else rnd),
         start = s,
         end' = e,
         drag = nullish (p_drag params) True,
         resize = rs,
         color = nullish (p_color params) ''rgba(0, 0, 0, 0.1)'',
         content = (if truthy_str (p_content params) then p_content params else None),
         minLength = nullish (p_minLength params) 0,
         maxLength = p_maxLength params,
         channelIdx = nullish (p_channelIdx params) (- 1),
         contentEditable = nullish (p_contentEditable params) False,
         regionsList = [],
         regionsListIndex = 0,
         startPercentPosition = map_option (\<lambda>v. v * 100) (js_div s dur),
         endPercentPosition = map_option (\<lambda>v. 100 - v * 100) (js_div (dur - e) dur),
         runScrollAdjuster_Interval = h,
         totalDuration = dur,
         numberOfChannels = nch,
         hasResizeHandles = (s \<noteq> e \<and> rs),
         intervals = Map.empty,
         nextHandle = Suc h,
         scrollLeft = 0,
         emitted = []\<rparr>)"

text \<open>The first three statements of \<^verbatim>\<open>_onUpdate\<close> after the guard. For a parent of
  width 0 the source obtains \<^verbatim>\<open>Infinity\<close> or \<^verbatim>\<open>NaN\<close> as its delta, which no
  \<^typ>\<open>real\<close> stands for: \<open>deltaSeconds\<close> is the delta of the source for a width that
  is not 0, and the theorems below on the acceptance of a sample are stated for
  \<open>0 < width\<close>.\<close>

definition deltaSeconds :: "real \<Rightarrow> real \<Rightarrow> real \<Rightarrow> real" where
  "deltaSeconds dx width dur = (dx / width) * dur"

definition tentativeStart :: "region \<Rightarrow> side option \<Rightarrow> real \<Rightarrow> real" where
  "tentativeStart r sd ds = (if sd = None \<or> sd = Some Start then start r + ds else start r)"

definition tentativeEnd :: "region \<Rightarrow> side option \<Rightarrow> real \<Rightarrow> real" where
  "tentativeEnd r sd ds = (if sd = None \<or> sd = Some End then end' r + ds else end' r)"

text \<open>\<^verbatim>\<open>this.regionsList[this.regionsListIndex-1]\<close> and
  \<^verbatim>\<open>this.regionsList[this.regionsListIndex+1]\<close>.\<close>

definition previousNeighbor :: "region \<Rightarrow> region_entry option" where
  "previousNeighbor r = js_index (regionsList r) (regionsListIndex r - 1)"

definition nextNeighbor :: "region \<Rightarrow> region_entry option" where
  "nextNeighbor r = js_index (regionsList r) (regionsListIndex r + 1)"

text \<open>The block \<^verbatim>\<open>if (this.regionsList.length) { ... }\<close> of \<^verbatim>\<open>_onUpdate\<close>: from
  the tentative \<^verbatim>\<open>newStart\<close> and \<^verbatim>\<open>newEnd\<close> to their values after the block and
  the flag \<^verbatim>\<open>overlapWithAnotherRegion\<close>. In the branch for a resize the source
  assigns \<^verbatim>\<open>newStart\<close> first and then evaluates
  \<^verbatim>\<open>newEnd = newStart + (newEnd - newStart)\<close> with the new \<^verbatim>\<open>newStart\<close>.\<close>

definition overlapBlock :: "region \<Rightarrow> side option \<Rightarrow> real \<Rightarrow> real \<Rightarrow> real \<times> real \<times> bool" where
  "overlapBlock r sd newStart newEnd =
     (if regionsList r \<noteq> [] then
        (case previousNeighbor r of
           Some p \<Rightarrow>
             if newStart < e_end p then
               (let newStart1 = e_end p + 0.000000001;
                    newEnd1 = (if sd \<noteq> None then newStart1 + (newEnd - newStart1)
                               else newStart1 + (end' r - start r))
                in (newStart1, newEnd1, True))
             else
               (case nextNeighbor r of
                  Some n \<Rightarrow>
                    if newEnd > e_start n then
                      (let newEnd1 = e_start n - 0.000000001;
                           newStart1 = (if sd \<noteq> None then newEnd1 - (newEnd1 - newStart)
                                        else newEnd1 - (end' r - start r))
                       in (newStart1, newEnd1, True))
                    else (newStart, newEnd, False)
                | None \<Rightarrow> (newStart, newEnd, False))
         | None \<Rightarrow>
             (case nextNeighbor r of
                Some n \<Rightarrow>
                  if newEnd > e_start n then
                    (let newEnd1 = e_start n - 0.000000001;
                         newStart1 = (if sd \<noteq> None then newEnd1 - (newEnd1 - newStart)
                                      else newEnd1 - (end' r - start r))
                     in (newStart1, newEnd1, True))
                  else (newStart, newEnd, False)
              | None \<Rightarrow> (newStart, newEnd, False)))
      else (newStart, newEnd, False))"

text \<open>\<^verbatim>\<open>_onUpdate(dx, side, element)\<close>. \<open>parentWidth\<close> is the width of
  \<^verbatim>\<open>this.element.parentElement\<close>, \<open>None\<close> when the element has no parent.
  \<^verbatim>\<open>length\<close> is computed before the overlap block and not afterwards.\<close>

definition onUpdate :: "real \<Rightarrow> side option \<Rightarrow> real option \<Rightarrow> region \<Rightarrow> region" where
  "onUpdate dx sd parentWidth r =
     (case parentWidth of
        None \<Rightarrow> r
      | Some width \<Rightarrow>
         (let ds = deltaSeconds dx width (totalDuration r);
              newStart = tentativeStart r sd ds;
              newEnd = tentativeEnd r sd ds;
              len = newEnd - newStart;
              (newStart1, newEnd1, overlapWithAnotherRegion) = overlapBlock r sd newStart newEnd;
              r1 = (if overlapWithAnotherRegion
                       \<or> (newStart1 \<ge> 0
                           \<and> newEnd1 \<le> totalDuration r
                           \<and> newStart1 \<le> newEnd1
                           \<and> len \<ge> minLength r
                           \<and> le_maxLength len (maxLength r))
                    then (let r2 = renderPosition (r\<lparr>start := newStart1, end' := newEnd1\<rparr>)
                          in r2\<lparr>emitted := emitted r2 @ [Update sd dx]\<rparr>)
                    else r)
          in if overlapWithAnotherRegion then stopRunScrollAdjuster r1 else r1))"

text \<open>\<^verbatim>\<open>setInterval(cb, 30)\<close> followed by the assignment of its handle to
  \<^verbatim>\<open>this.runScrollAdjuster_Interval\<close>.\<close>

definition setInterval :: "interval_cb \<Rightarrow> region \<Rightarrow> region" where
  "setInterval cb r =
     r\<lparr>intervals := (intervals r)(nextHandle r \<mapsto> cb),
       runScrollAdjuster_Interval := nextHandle r,
       nextHandle := Suc (nextHandle r)\<rparr>"

text \<open>\<^verbatim>\<open>runScrollAdjuster(direction, speed, element, dx, side)\<close>; \<open>hasContainer\<close>
  tells whether the fourth ancestor of the element exists.\<close>

definition runScrollAdjuster :: "bool \<Rightarrow> real \<Rightarrow> bool \<Rightarrow> real \<Rightarrow> side option \<Rightarrow> region \<Rightarrow> region" where
  "runScrollAdjuster direction speed hasContainer dx sd r =
     (let speed1 = (if speed > 15 then 15 else if speed < - 15 then - 15 else speed);
          r1 = stopRunScrollAdjuster r
      in if \<not> hasContainer then r1
         else setInterval \<lparr>cb_direction = direction, cb_speed = speed1, cb_dx = dx, cb_side = sd\<rparr> r1)"

text \<open>One run of the callback of the timer with handle \<open>h\<close>, if that timer is live.
  \<open>scrollWidth\<close> and \<open>parentWidth\<close> are what the callback reads from the document. The
  assignment to \<^verbatim>\<open>scrollLeft\<close> is taken as written (a browser also clamps the
  offset to the scrollable range).\<close>

definition intervalTick :: "nat \<Rightarrow> real \<Rightarrow> real option \<Rightarrow> region \<Rightarrow> region" where
  "intervalTick h scrollWidth parentWidth r =
     (case intervals r h of
        None \<Rightarrow> r
      | Some cb \<Rightarrow>
          (let r1 = (if cb_direction cb \<and> cb_dx cb > 0 \<and> scrollLeft r < scrollWidth
                     then onUpdate (- cb_speed cb) (cb_side cb) parentWidth
                            (r\<lparr>scrollLeft := scrollLeft r - cb_speed cb\<rparr>)
                     else r)
           in if \<not> cb_direction cb \<and> cb_dx cb < 0 \<and> scrollLeft r1 > 0
              then onUpdate (- cb_speed cb) (cb_side cb) parentWidth
                     (r1\<lparr>scrollLeft := scrollLeft r1 - cb_speed cb\<rparr>)
              else r1))"

text \<open>What \<^verbatim>\<open>adjustScroll\<close> reads: \<^verbatim>\<open>clientWidth\<close> and \<^verbatim>\<open>scrollWidth\<close> of the
  scroll container, the left edge of its bounding box, and the bounding box of the
  dragged element.\<close>

record scroll_geom =
  g_clientWidth :: real
  g_scrollWidth :: real
  g_scrollBboxLeft :: real
  g_bboxLeft :: real
  g_bboxRight :: real
  g_bboxWidth :: real

text \<open>\<^verbatim>\<open>adjustScroll(dx, side, element)\<close>; \<open>geom\<close> is \<open>None\<close> when the element or
  its scroll container is absent.\<close>

definition adjustScroll :: "real \<Rightarrow> side option \<Rightarrow> scroll_geom option \<Rightarrow> region \<Rightarrow> region" where
  "adjustScroll dx sd geom r =
     (case geom of
        None \<Rightarrow> r
      | Some g \<Rightarrow>
          if g_scrollWidth g \<le> g_clientWidth g then r
          else
            (let left = g_bboxLeft g - g_scrollBboxLeft g;
                 right = g_bboxRight g - g_scrollBboxLeft g
             in if sd \<noteq> None then
                  (if left < 120 \<and> dx < 0 then
                     runScrollAdjuster False (120 - left) True dx sd r
                   else if right > g_clientWidth g - 120 \<and> dx > 0 then
                     runScrollAdjuster True (g_clientWidth g - 120 - right) True dx sd r
                   else stopRunScrollAdjuster r)
                else
                  (if left < 0 \<and> g_bboxWidth g < g_clientWidth g \<and> dx < 0 then
                     r\<lparr>scrollLeft := scrollLeft r + left\<rparr>
                   else if right > g_clientWidth g \<and> g_bboxWidth g < g_clientWidth g \<and> dx > 0 then
                     r\<lparr>scrollLeft := scrollLeft r + (right - g_clientWidth g)\<rparr>
                   else stopRunScrollAdjuster r)))"

text \<open>\<^verbatim>\<open>onMove\<close> and \<^verbatim>\<open>onResize\<close>, the drag callbacks of the region and of its
  handles.\<close>

definition onMove :: "real \<Rightarrow> real option \<Rightarrow> scroll_geom option \<Rightarrow> region \<Rightarrow> region" where
  "onMove dx parentWidth geom r =
     (if \<not> drag r then r else adjustScroll dx None geom (onUpdate dx None parentWidth r))"

definition onResize :: "real \<Rightarrow> side option \<Rightarrow> real option \<Rightarrow> scroll_geom option \<Rightarrow> region \<Rightarrow> region" where
  "onResize dx sd parentWidth geom r =
     (if \<not> resize r then r else adjustScroll dx sd geom (onUpdate dx sd parentWidth r))"

text \<open>\<^verbatim>\<open>onEndResizing\<close>, and the end callback of the drag binding of the region.\<close>

definition onEndResizing :: "region \<Rightarrow> region" where
  "onEndResizing r = (if \<not> resize r then r else r\<lparr>emitted := emitted r @ [UpdateEnd]\<rparr>)"

definition onEndDrag :: "region \<Rightarrow> region" where
  "onEndDrag r = (if drag r then r\<lparr>emitted := emitted r @ [UpdateEnd]\<rparr> else r)"

text \<open>\<^verbatim>\<open>documentMouseUpRegionsListener\<close>, registered on the document by the
  constructor.\<close>

definition documentMouseUpRegionsListener :: "region \<Rightarrow> region" where
  "documentMouseUpRegionsListener r = stopRunScrollAdjuster r"

text \<open>\<^verbatim>\<open>_setTotalDuration\<close>\<close>

definition setTotalDuration :: "real \<Rightarrow> region \<Rightarrow> region" where
  "setTotalDuration d r = renderPosition (r\<lparr>totalDuration := d\<rparr>)"

text \<open>\<^verbatim>\<open>setOptions\<close>, one definition for each \<^verbatim>\<open>if\<close> statement of its body, in
  the order of the source. The new \<^verbatim>\<open>end\<close> of a marker defaults to the start that has
  just been assigned.\<close>

definition optColor :: "region_options \<Rightarrow> region \<Rightarrow> region" where
  "optColor opts r = (if truthy_str (o_color opts) then r\<lparr>color := the (o_color opts)\<rparr> else r)"

definition optDrag :: "region_options \<Rightarrow> region \<Rightarrow> region" where
  "optDrag opts r = (case o_drag opts of None \<Rightarrow> r | Some d \<Rightarrow> r\<lparr>drag := d\<rparr>)"

definition optPosition :: "region_options \<Rightarrow> region \<Rightarrow> region" where
  "optPosition opts r =
     (if o_start opts \<noteq> None \<or> o_end opts \<noteq> None then
        (let isMarker = (start r = end' r);
             s = clampPosition (totalDuration r) (nullish (o_start opts) (start r));
             e = clampPosition (totalDuration r)
                   (nullish (o_end opts) (if isMarker then s else end' r))
         in renderPosition (r\<lparr>start := s, end' := e\<rparr>))
      else r)"

definition optContent :: "region_options \<Rightarrow> region \<Rightarrow> region" where
  "optContent opts r = (if truthy_str (o_content opts) then r\<lparr>content := o_content opts\<rparr> else r)"

definition optId :: "region_options \<Rightarrow> region \<Rightarrow> region" where
  "optId opts r = (if truthy_str (o_id opts) then r\<lparr>id := the (o_id opts)\<rparr> else r)"

definition optResize :: "region_options \<Rightarrow> region \<Rightarrow> region" where
  "optResize opts r =
     (case o_resize opts of
        None \<Rightarrow> r
      | Some b \<Rightarrow>
          if b \<noteq> resize r then
            (let isMarker = (start r = end' r)
             in r\<lparr>resize := b, hasResizeHandles := (b \<and> \<not> isMarker)\<rparr>)
          else r)"

definition setOptions :: "region_options \<Rightarrow> region \<Rightarrow> region" where
  "setOptions opts r =
     optResize opts (optId opts (optContent opts (optPosition opts (optDrag opts (optColor opts r)))))"

text \<open>The operations on a region that the repository performs after constructing it
  (the callbacks of its drag bindings, the timer, the document listener and the public
  methods), as one datatype, so that the states a region can reach are an inductive set.\<close>

datatype region_op =
    OpUpdate real "side option" "real option"
  | OpMove real "real option" "scroll_geom option"
  | OpResize real "side option" "real option" "scroll_geom option"
  | OpEndResizing
  | OpEndDrag
  | OpIntervalTick nat real "real option"
  | OpDocumentMouseUp
  | OpSetTotalDuration real
  | OpSetOptions region_options

fun applyRegionOp :: "region_op \<Rightarrow> region \<Rightarrow> region" where
  "applyRegionOp (OpUpdate dx sd pw) r = onUpdate dx sd pw r"
| "applyRegionOp (OpMove dx pw geom) r = onMove dx pw geom r"
| "applyRegionOp (OpResize dx sd pw geom) r = onResize dx sd pw geom r"
| "applyRegionOp OpEndResizing r = onEndResizing r"
| "applyRegionOp OpEndDrag r = onEndDrag r"
| "applyRegionOp (OpIntervalTick h sw pw) r = intervalTick h sw pw r"
| "applyRegionOp OpDocumentMouseUp r = documentMouseUpRegionsListener r"
| "applyRegionOp (OpSetTotalDuration d) r = setTotalDuration d r"
| "applyRegionOp (OpSetOptions opts) r = setOptions opts r"

inductive reachable :: "region \<Rightarrow> bool" where
  constructed: "reachable (Region params dur nch rnd h)"
| step: "reachable r \<Longrightarrow> reachable (applyRegionOp op r)"

subsection \<open>The drag recogniser \<^verbatim>\<open>makeDraggable\<close>\<close>

text \<open>The arguments of \<^verbatim>\<open>makeDraggable\<close> that the handlers read, and
  \<^verbatim>\<open>isTouchDevice\<close>, computed once when the binding is made.\<close>

record drag_config =
  c_threshold :: real
  c_mouseButton :: int
  c_touchDelay :: real
  c_side :: "string option"
  c_isTouchDevice :: bool

record pointer_event =
  clientX :: real
  clientY :: real
  button :: int

text \<open>\<^verbatim>\<open>element.getBoundingClientRect()\<close>\<close>

record rect =
  rect_left :: real
  rect_top :: real
  rect_right :: real

text \<open>The variables that \<^verbatim>\<open>onPointerDown\<close> declares and its inner handlers share.\<close>

record session =
  startX :: real
  startY :: real
  isDragging :: bool
  touchStartTime :: real
  startXFromRectLeft :: real

text \<open>A call of one of the three callbacks, with its arguments (the element argument of
  \<^verbatim>\<open>onDrag\<close> is left out).\<close>

datatype callback = OnStart real real | OnDrag real real real real | OnEnd real real

text \<open>\<^verbatim>\<open>!side\<close> for a \<^verbatim>\<open>string | null\<close>.\<close>

definition falsy_side :: "string option \<Rightarrow> bool" where
  "falsy_side sd = (sd = None \<or> sd = Some [])"

text \<open>\<^verbatim>\<open>onPointerDown\<close>: \<open>None\<close> when the button is not the configured one, else the
  fresh session. \<open>now\<close> is \<^verbatim>\<open>Date.now()\<close>.\<close>

definition onPointerDown :: "drag_config \<Rightarrow> pointer_event \<Rightarrow> rect \<Rightarrow> real \<Rightarrow> session option" where
  "onPointerDown cfg ev rct now =
     (if button ev \<noteq> c_mouseButton cfg then None
      else Some \<lparr>startX = clientX ev, startY = clientY ev, isDragging = False,
                 touchStartTime = now,
                 startXFromRectLeft =
                   (if falsy_side (c_side cfg) then clientX ev - rect_left rct else 0)\<rparr>)"

text \<open>The test \<^verbatim>\<open>(dx > 0 && x < left) || (dx < 0 && x > right)\<close>.\<close>

definition crossed :: "real \<Rightarrow> real \<Rightarrow> rect \<Rightarrow> bool" where
  "crossed dx x rct = ((dx > 0 \<and> x < rect_left rct) \<or> (dx < 0 \<and> x > rect_right rct))"

text \<open>\<^verbatim>\<open>onPointerMove\<close>: the session after the sample and the callbacks invoked, in
  order.\<close>

definition onPointerMove :: "drag_config \<Rightarrow> pointer_event \<Rightarrow> rect \<Rightarrow> real \<Rightarrow> session \<Rightarrow> session \<times> callback list" where
  "onPointerMove cfg ev rct now s =
     (if c_isTouchDevice cfg \<and> now - touchStartTime s < c_touchDelay cfg then (s, [])
      else
        (let x = clientX ev; y = clientY ev; dx = x - startX s; dy = y - startY s
         in if isDragging s \<or> \<bar>dx\<bar> > c_threshold cfg \<or> \<bar>dy\<bar> > c_threshold cfg then
              (let started = (if \<not> isDragging s
                              then [OnStart (startX s - rect_left rct) (startY s - rect_top rct)]
                              else []);
                   s1 = s\<lparr>isDragging := True\<rparr>;
                   leaveEarlier =
                     (if c_side cfg = Some ''start'' \<and> crossed dx x rct then True
                      else if c_side cfg = Some ''end'' \<and> crossed dx x rct then True
                      else if falsy_side (c_side cfg) then
                        (let currentStartXFromRectLeft = clientX ev - rect_left rct
                         in (dx > 0 \<and> currentStartXFromRectLeft < startXFromRectLeft s)
                            \<or> (dx < 0 \<and> currentStartXFromRectLeft > startXFromRectLeft s))
                      else False)
               in if leaveEarlier then (s1\<lparr>startX := x, startY := y\<rparr>, started)
                  else (s1\<lparr>startX := x, startY := y\<rparr>,
                        started @ [OnDrag dx dy (x - rect_left rct) (y - rect_top rct)]))
            else (s, [])))"

text \<open>\<^verbatim>\<open>onPointerUp\<close>: the callbacks invoked; the session ends.\<close>

definition onPointerUp :: "pointer_event \<Rightarrow> rect \<Rightarrow> session \<Rightarrow> callback list" where
  "onPointerUp ev rct s =
     (if isDragging s then [OnEnd (clientX ev - rect_left rct) (clientY ev - rect_top rct)] else [])"

subsection \<open>\<^verbatim>\<open>RegionsPlugin\<close>\<close>

text \<open>What the plugin reads from the host player: \<^verbatim>\<open>getDuration()\<close>,
  \<^verbatim>\<open>getDecodedData()?.numberOfChannels\<close>, \<^verbatim>\<open>isPlaying()\<close>, whether
  \<^verbatim>\<open>getWrapper()\<close> is an \<^verbatim>\<open>HTMLElement\<close>, and the width of the wrapper.\<close>

record wavesurfer =
  ws_duration :: real
  ws_numberOfChannels :: "nat option"
  ws_isPlaying :: bool
  ws_hasWrapper :: bool
  ws_wrapperWidth :: real

text \<open>The plugin events that the modelled methods emit; a region is named by its
  reference.\<close>

datatype plugin_event =
    RegionCreated nat
  | RegionUpdated nat
  | RegionRemoved nat
  | RegionIn nat
  | RegionOut nat

text \<open>The variables of one \<^verbatim>\<open>enableDragSelection\<close> closure: its arguments, and
  \<^verbatim>\<open>region\<close> and \<^verbatim>\<open>startX\<close>.\<close>

record drag_selection =
  ds_options :: region_params
  ds_threshold :: real
  ds_region :: "nat option"
  ds_startX :: real

text \<open>The plugin: \<^verbatim>\<open>this.wavesurfer\<close> (\<open>None\<close> until the host registers the plugin),
  the \<^verbatim>\<open>Region\<close> objects by reference, \<^verbatim>\<open>this.regions\<close>, \<^verbatim>\<open>this.regionIn\<close>,
  the variable \<^verbatim>\<open>activeRegions\<close> of \<^verbatim>\<open>onInit\<close>, the regions whose
  \<^verbatim>\<open>addRegion\<close> waits for \<^verbatim>\<open>ready\<close>, the drag-selection closures, and the log of
  emitted events.\<close>

record plugin =
  wavesurfer :: "wavesurfer option"
  heap :: "nat \<rightharpoonup> region"
  nextRef :: nat
  regions :: "nat list"
  regionIn :: "nat option"
  activeRegions :: "nat list"
  readyOnce :: "nat list"
  dragSelections :: "drag_selection list"
  pluginEmitted :: "plugin_event list"

datatype error = Error string

datatype disposer = NoopDisposer | Unsubscribe nat

text \<open>\<^verbatim>\<open>new Region(...)\<close> as an allocation.\<close>

definition allocRegion :: "region \<Rightarrow> plugin \<Rightarrow> nat \<times> plugin" where
  "allocRegion r p = (nextRef p, p\<lparr>heap := (heap p)(nextRef p \<mapsto> r), nextRef := Suc (nextRef p)\<rparr>)"

text \<open>\<^verbatim>\<open>saveRegion\<close>: the region joins \<^verbatim>\<open>this.regions\<close> and
  \<^verbatim>\<open>region-created\<close> is emitted (the deferred rendering and the label layout belong
  to the rendering surface; the subscriptions to the events of the region are
  \<open>forwardRegionEvents\<close> below).\<close>

definition saveRegion :: "nat \<Rightarrow> plugin \<Rightarrow> plugin" where
  "saveRegion ref p =
     p\<lparr>regions := regions p @ [ref], pluginEmitted := pluginEmitted p @ [RegionCreated ref]\<rparr>"

text \<open>\<^verbatim>\<open>addRegion(options)\<close>. \<^verbatim>\<open>!duration\<close> holds for a duration of zero.\<close>

definition addRegion :: "region_params \<Rightarrow> string \<Rightarrow> nat \<Rightarrow> plugin \<Rightarrow> error + (nat \<times> plugin)" where
  "addRegion options rnd h p =
     (case wavesurfer p of
        None \<Rightarrow> Inl (Error ''WaveSurfer is not initialized'')
      | Some ws \<Rightarrow>
          (let duration = ws_duration ws;
               (region, p1) = allocRegion
                  (Region options duration (nullish (ws_numberOfChannels ws) 0) rnd h) p
           in if duration = 0
              then Inr (region, p1\<lparr>readyOnce := readyOnce p1 @ [region]\<rparr>)
              else Inr (region, saveRegion region p1)))"

text \<open>Modelled from the spec: the delivery of the host's \<^verbatim>\<open>ready\<close> event by
  \<^verbatim>\<open>EventEmitter.once\<close> (\<^verbatim>\<open>event-emitter.js\<close> is not among the sources). Each
  handler that \<^verbatim>\<open>addRegion\<close> registered runs once, in order of registration, with the
  duration as its argument, and is then unsubscribed. The body of the handler,
  \<^verbatim>\<open>region._setTotalDuration(duration); this.saveRegion(region)\<close>, is from the
  source.\<close>

definition readyHandler :: "real \<Rightarrow> plugin \<Rightarrow> nat \<Rightarrow> plugin" where
  "readyHandler duration p ref =
     saveRegion ref (p\<lparr>heap := (case heap p ref of
                                    None \<Rightarrow> heap p
                                  | Some r \<Rightarrow> (heap p)(ref \<mapsto> setTotalDuration duration r))\<rparr>)"

definition onReady :: "real \<Rightarrow> plugin \<Rightarrow> plugin" where
  "onReady duration p = foldl (readyHandler duration) (p\<lparr>readyOnce := []\<rparr>) (readyOnce p)"

text \<open>\<^verbatim>\<open>this.wavesurfer?.isPlaying()\<close>\<close>

definition playing :: "plugin \<Rightarrow> bool" where
  "playing p = (case wavesurfer p of None \<Rightarrow> False | Some ws \<Rightarrow> ws_isPlaying ws)"

text \<open>The \<^verbatim>\<open>for\<close> loop of the \<^verbatim>\<open>timeupdate\<close> handler up to its \<^verbatim>\<open>break\<close>: the
  first region of \<^verbatim>\<open>this.regions\<close> that contains the current time.\<close>

fun findRegionIn :: "(nat \<rightharpoonup> region) \<Rightarrow> real \<Rightarrow> nat list \<Rightarrow> nat option" where
  "findRegionIn hp t [] = None"
| "findRegionIn hp t (ref # refs) =
     (case hp ref of
        Some r \<Rightarrow> if t \<ge> start r \<and> t \<le> end' r then Some ref else findRegionIn hp t refs
      | None \<Rightarrow> findRegionIn hp t refs)"

text \<open>The handler of \<^verbatim>\<open>timeupdate\<close> that \<^verbatim>\<open>onInit\<close> registers.\<close>

definition timeupdate :: "real \<Rightarrow> plugin \<Rightarrow> plugin" where
  "timeupdate currentTime p =
     (let playedRegions =
            filter (\<lambda>ref. case heap p ref of
                             None \<Rightarrow> False
                           | Some r \<Rightarrow> start r \<le> currentTime
                                \<and> (if end' r = start r then start r + 0.05 else end' r) \<ge> currentTime)
                   (regions p);
          p1 = (if playing p then
                  (case findRegionIn (heap p) currentTime (regions p) of
                     Some ref \<Rightarrow>
                       if regionIn p = None \<or> regionIn p \<noteq> Some ref
                       then p\<lparr>regionIn := Some ref,
                              pluginEmitted := pluginEmitted p @ [RegionIn ref]\<rparr>
                       else p
                   | None \<Rightarrow>
                       (case regionIn p of
                          Some old \<Rightarrow> p\<lparr>pluginEmitted := pluginEmitted p @ [RegionOut old],
                                         regionIn := None\<rparr>
                        | None \<Rightarrow> p))
                else p)
      in p1\<lparr>activeRegions := playedRegions\<rparr>)"

text \<open>\<^verbatim>\<open>enableDragSelection(options, threshold)\<close>: without a wrapper element the
  method returns \<^verbatim>\<open>() => undefined\<close>; otherwise it binds a drag recogniser to the
  wrapper and returns the function that removes it.\<close>

definition enableDragSelection :: "region_params \<Rightarrow> real \<Rightarrow> plugin \<Rightarrow> error + (disposer \<times> plugin)" where
  "enableDragSelection options threshold p =
     (case wavesurfer p of
        None \<Rightarrow> Inr (NoopDisposer, p)
      | Some ws \<Rightarrow>
          if \<not> ws_hasWrapper ws then Inr (NoopDisposer, p)
          else Inr (Unsubscribe (length (dragSelections p)),
                    p\<lparr>dragSelections := dragSelections p @
                         [\<lparr>ds_options = options, ds_threshold = threshold, ds_region = None,
                           ds_startX = 0\<rparr>]\<rparr>))"

text \<open>The three callbacks that \<^verbatim>\<open>enableDragSelection\<close> gives to the recogniser, for
  closure number \<open>i\<close>. \<^verbatim>\<open>initialSize\<close> is 5.\<close>

definition dragSelectionStart :: "nat \<Rightarrow> real \<Rightarrow> string \<Rightarrow> nat \<Rightarrow> plugin \<Rightarrow> plugin" where
  "dragSelectionStart i x rnd h p =
     (if i < length (dragSelections p) then
        (let d = (dragSelections p ! i)\<lparr>ds_startX := x\<rparr>;
             p0 = p\<lparr>dragSelections := (dragSelections p)[i := d]\<rparr>
         in case wavesurfer p of
              None \<Rightarrow> p0
            | Some ws \<Rightarrow>
                (let duration = ws_duration ws;
                     width = ws_wrapperWidth ws;
                     s = (x / width) * duration;
                     e = ((x + 5) / width) * duration;
                     (region, p1) = allocRegion
                        (Region ((ds_options d)\<lparr>p_start := s, p_end := Some e\<rparr>) duration
                           (nullish (ws_numberOfChannels ws) 0) rnd h) p0
                 in p1\<lparr>dragSelections := (dragSelections p1)[i := d\<lparr>ds_region := Some region\<rparr>]\<rparr>))
      else p)"

definition dragSelectionDrag :: "nat \<Rightarrow> real \<Rightarrow> real \<Rightarrow> real option \<Rightarrow> plugin \<Rightarrow> plugin" where
  "dragSelectionDrag i dx x parentWidth p =
     (if i < length (dragSelections p) then
        (case ds_region (dragSelections p ! i) of
           None \<Rightarrow> p
         | Some region \<Rightarrow>
             (case heap p region of
                None \<Rightarrow> p
              | Some r \<Rightarrow>
                  p\<lparr>heap := (heap p)(region \<mapsto>
                       onUpdate dx (if x > ds_startX (dragSelections p ! i) then Some End else Some Start)
                         parentWidth r)\<rparr>))
      else p)"

definition dragSelectionEnd :: "nat \<Rightarrow> plugin \<Rightarrow> plugin" where
  "dragSelectionEnd i p =
     (if i < length (dragSelections p) then
        (case ds_region (dragSelections p ! i) of
           None \<Rightarrow> p
         | Some region \<Rightarrow>
             (let p1 = saveRegion region p
              in p1\<lparr>dragSelections := (dragSelections p1)[i := (dragSelections p1 ! i)\<lparr>ds_region := None\<rparr>]\<rparr>))
      else p)"

text \<open>The subscriptions that \<^verbatim>\<open>saveRegion\<close> makes to the events of a region: each
  \<^verbatim>\<open>update-end\<close> is forwarded as \<^verbatim>\<open>region-updated\<close>; \<^verbatim>\<open>update\<close> only
  recomputes the overlay.\<close>

fun forwardRegionEvents :: "nat \<Rightarrow> region_event list \<Rightarrow> plugin_event list" where
  "forwardRegionEvents ref [] = []"
| "forwardRegionEvents ref (UpdateEnd # es) = RegionUpdated ref # forwardRegionEvents ref es"
| "forwardRegionEvents ref (Update sd dx # es) = forwardRegionEvents ref es"

text \<open>An operation on the region at \<open>ref\<close>, with the forwarding of the events it emits
  when the region has been saved.\<close>

definition onRegion :: "nat \<Rightarrow> region_op \<Rightarrow> plugin \<Rightarrow> plugin" where
  "onRegion ref op p =
     (case heap p ref of
        None \<Rightarrow> p
      | Some r \<Rightarrow>
          (let r1 = applyRegionOp op r;
               new = drop (length (emitted r)) (emitted r1);
               p1 = p\<lparr>heap := (heap p)(ref \<mapsto> r1)\<rparr>
           in if ref \<in> set (regions p)
              then p1\<lparr>pluginEmitted := pluginEmitted p1 @ forwardRegionEvents ref new\<rparr>
              else p1))"

text \<open>The handler of the \<^verbatim>\<open>remove\<close> event of a saved region.\<close>

definition onRegionRemoved :: "nat \<Rightarrow> plugin \<Rightarrow> plugin" where
  "onRegionRemoved ref p =
     (if ref \<in> set (regions p)
      then p\<lparr>regions := filter (\<lambda>reg. reg \<noteq> ref) (regions p),
             pluginEmitted := pluginEmitted p @ [RegionRemoved ref]\<rparr>
      else p)"

text \<open>The operations of the plugin as one datatype; an operation that throws leaves the
  state as it was.\<close>

datatype plugin_op =
    AddRegion region_params string nat
  | EnableDragSelection region_params real
  | DragSelectionStart nat real string nat
  | DragSelectionDrag nat real real "real option"
  | DragSelectionEnd nat
  | TimeUpdate real
  | Ready real
  | OnRegion nat region_op
  | RegionRemove nat
  | HostChange "wavesurfer option"

fun exec :: "plugin_op \<Rightarrow> plugin \<Rightarrow> plugin" where
  "exec (AddRegion options rnd h) p =
     (case addRegion options rnd h p of Inl e \<Rightarrow> p | Inr (region, p1) \<Rightarrow> p1)"
| "exec (EnableDragSelection options threshold) p =
     (case enableDragSelection options threshold p of Inl e \<Rightarrow> p | Inr (d, p1) \<Rightarrow> p1)"
| "exec (DragSelectionStart i x rnd h) p = dragSelectionStart i x rnd h p"
| "exec (DragSelectionDrag i dx x pw) p = dragSelectionDrag i dx x pw p"
| "exec (DragSelectionEnd i) p = dragSelectionEnd i p"
| "exec (TimeUpdate t) p = timeupdate t p"
| "exec (Ready d) p = onReady d p"
| "exec (OnRegion ref op) p = onRegion ref op p"
| "exec (RegionRemove ref) p = onRegionRemoved ref p"
| "exec (HostChange ws) p = p\<lparr>wavesurfer := ws\<rparr>"

text \<open>The plugin as its constructor leaves it.\<close>

definition newPlugin :: plugin where
  "newPlugin =
     \<lparr>wavesurfer = None, heap = Map.empty, nextRef = 0, regions = [], regionIn = None,
      activeRegions = [], readyOnce = [], dragSelections = [], pluginEmitted = []\<rparr>"

subsection \<open>The position model in the words of the specification\<close>

text \<open>The tentative positions per side: for a move both edges shift by the time delta,
  for a resize of the start only the start, for a resize of the end only the end; the
  delta is \<open>dx / width * totalDuration\<close>.\<close>

definition spec_newStart :: "region \<Rightarrow> real \<Rightarrow> side option \<Rightarrow> real \<Rightarrow> real" where
  "spec_newStart r dx sd w =
     (case sd of
        None \<Rightarrow> start r + dx / w * totalDuration r
      | Some Start \<Rightarrow> start r + dx / w * totalDuration r
      | Some End \<Rightarrow> start r)"

definition spec_newEnd :: "region \<Rightarrow> real \<Rightarrow> side option \<Rightarrow> real \<Rightarrow> real" where
  "spec_newEnd r dx sd w =
     (case sd of
        None \<Rightarrow> end' r + dx / w * totalDuration r
      | Some Start \<Rightarrow> end' r
      | Some End \<Rightarrow> end' r + dx / w * totalDuration r)"

text \<open>An overlap event: the new start would retreat past the end of the previous
  neighbour, or else the new end would advance past the start of the next neighbour.\<close>

definition spec_overlapEvent :: "region \<Rightarrow> real \<Rightarrow> real \<Rightarrow> bool" where
  "spec_overlapEvent r newStart newEnd =
     ((case previousNeighbor r of Some p \<Rightarrow> newStart < e_end p | None \<Rightarrow> False)
      \<or> (case nextNeighbor r of Some n \<Rightarrow> newEnd > e_start n | None \<Rightarrow> False))"

text \<open>The bounds-and-length test on a pair of positions, the length being that of the
  tentative positions.\<close>

definition spec_boundsTest :: "region \<Rightarrow> real \<Rightarrow> real \<Rightarrow> bool" where
  "spec_boundsTest r newStart newEnd =
     (newStart \<ge> 0 \<and> newEnd \<le> totalDuration r \<and> newStart \<le> newEnd
      \<and> minLength r \<le> newEnd - newStart \<and> le_maxLength (newEnd - newStart) (maxLength r))"

text \<open>Acceptance: an overlap event occurred, or the bounds-and-length test holds. Without
  an overlap event the clamped positions are the tentative ones.\<close>

definition spec_accepts :: "region \<Rightarrow> real \<Rightarrow> side option \<Rightarrow> real \<Rightarrow> bool" where
  "spec_accepts r dx sd w =
     (spec_overlapEvent r (spec_newStart r dx sd w) (spec_newEnd r dx sd w)
      \<or> spec_boundsTest r (spec_newStart r dx sd w) (spec_newEnd r dx sd w))"

text \<open>The invariant of the specification, and the weaker statement that each edge lies
  on the timeline.\<close>

definition spec_invariant :: "region \<Rightarrow> bool" where
  "spec_invariant r = (0 \<le> start r \<and> start r \<le> end' r \<and> end' r \<le> totalDuration r)"

definition onTimeline :: "region \<Rightarrow> bool" where
  "onTimeline r = (0 \<le> start r \<and> start r \<le> totalDuration r
                   \<and> 0 \<le> end' r \<and> end' r \<le> totalDuration r)"

text \<open>At most one repeating timer is live, and it is the one whose handle the region
  holds.\<close>

definition oneTimer :: "region \<Rightarrow> bool" where
  "oneTimer r = (\<forall>h. intervals r h \<noteq> None \<longrightarrow> h = runScrollAdjuster_Interval r)"

text \<open>The commit branch of \<^verbatim>\<open>_onUpdate\<close> on its own: the assignments, the call of
  \<^verbatim>\<open>renderPosition\<close> and the \<^verbatim>\<open>emit\<close>.\<close>

definition commitState :: "region \<Rightarrow> real \<Rightarrow> side option \<Rightarrow> real \<Rightarrow> real \<Rightarrow> region" where
  "commitState r dx sd ns ne =
     (renderPosition (r\<lparr>start := ns, end' := ne\<rparr>))\<lparr>emitted := emitted r @ [Update sd dx]\<rparr>"

text \<open>The events of \<^verbatim>\<open>region-in\<close> and \<^verbatim>\<open>region-out\<close>.\<close>

fun isInOut :: "plugin_event \<Rightarrow> bool" where
  "isInOut (RegionIn ref) = True"
| "isInOut (RegionOut ref) = True"
| "isInOut (RegionCreated ref) = False"
| "isInOut (RegionUpdated ref) = False"
| "isInOut (RegionRemoved ref) = False"

text \<open>The calls of \<^verbatim>\<open>onDrag\<close> among the callbacks.\<close>

fun isOnDrag :: "callback \<Rightarrow> bool" where
  "isOnDrag (OnDrag dx dy x y) = True"
| "isOnDrag (OnStart x y) = False"
| "isOnDrag (OnEnd x y) = False"

subsection \<open>Scenarios\<close>

definition scenario_params :: "real \<Rightarrow> real \<Rightarrow> region_params" where
  "scenario_params s e =
     \<lparr>p_id = None, p_start = s, p_end = Some e, p_drag = None, p_resize = None,
      p_color = None, p_content = None, p_minLength = None, p_maxLength = None,
      p_channelIdx = None, p_contentEditable = None\<rparr>"

text \<open>Scenario A: the region [5, 10] on a timeline of 100 seconds, as the constructor
  builds it.\<close>

definition scenarioA_region :: region where
  "scenarioA_region = Region (scenario_params 5 10) 100 0 ''region-a'' 0"

text \<open>Scenario B: the region B = [18, 30] on the same timeline, with the list
  A = [0, 20], B = [18, 30] written to its public field \<^verbatim>\<open>regionsList\<close> and its own
  position 1 to \<^verbatim>\<open>regionsListIndex\<close>.\<close>

definition scenarioB_entry :: "real \<Rightarrow> real \<Rightarrow> region_entry" where
  "scenarioB_entry s e =
     \<lparr>e_start = s, e_end = e, e_content = [], e_color = [], e_drag = True, e_resize = True\<rparr>"

definition scenarioB_region :: region where
  "scenarioB_region =
     (Region (scenario_params 18 30) 100 0 ''region-b'' 0)
       \<lparr>regionsList := [scenarioB_entry 0 20, scenarioB_entry 18 30], regionsListIndex := 1\<rparr>"

text \<open>Scenario D: scenario B, scrolled to offset 300, while a resize of the start keeps
  a timer running near the left edge of the scroll container.\<close>

definition scenarioD_geom :: scroll_geom where
  "scenarioD_geom =
     \<lparr>g_clientWidth = 500, g_scrollWidth = 2000, g_scrollBboxLeft = 0,
      g_bboxLeft = 110, g_bboxRight = 123, g_bboxWidth = 13\<rparr>"

definition scenarioD_region :: region where
  "scenarioD_region =
     adjustScroll (- 5) (Some Start) (Some scenarioD_geom) (scenarioB_region\<lparr>scrollLeft := 300\<rparr>)"

text \<open>A constructor call with the end before the start.\<close>

definition reversed_region :: region where
  "reversed_region = Region (scenario_params 5 3) 100 0 ''region-r'' 0"

text \<open>Options that give a new start and nothing else.\<close>

definition only_start_option :: "real \<Rightarrow> region_options" where
  "only_start_option s =
     \<lparr>o_id = None, o_start = Some s, o_end = None, o_drag = None, o_resize = None,
      o_color = None, o_content = None\<rparr>"

text \<open>A plugin that the host has registered, with the duration still unknown, and one
  with a known duration.\<close>

definition host_unknown_duration :: wavesurfer where
  "host_unknown_duration =
     \<lparr>ws_duration = 0, ws_numberOfChannels = None, ws_isPlaying = False,
      ws_hasWrapper = True, ws_wrapperWidth = 500\<rparr>"

definition pendingPlugin :: plugin where
  "pendingPlugin = newPlugin\<lparr>wavesurfer := Some host_unknown_duration\<rparr>"

text \<open>A session of a handle bound with \<^verbatim>\<open>side = 'end'\<close>, already dragging, and a
  sample that moves left while the pointer is to the right of the element.\<close>

definition lock_config :: drag_config where
  "lock_config =
     \<lparr>c_threshold = 1, c_mouseButton = 0, c_touchDelay = 100, c_side = Some ''end'',
      c_isTouchDevice = False\<rparr>"

definition lock_session :: session where
  "lock_session =
     \<lparr>startX = 100, startY = 40, isDragging = True, touchStartTime = 0,
      startXFromRectLeft = 0\<rparr>"

definition lock_event :: pointer_event where
  "lock_event = \<lparr>clientX = 90, clientY = 42, button = 0\<rparr>"

definition lock_rect :: rect where
  "lock_rect = \<lparr>rect_left = 0, rect_top = 0, rect_right = 80\<rparr>"

text \<open>A registered plugin with the region of scenario A, first paused, then playing.\<close>

definition host_paused :: wavesurfer where
  "host_paused =
     \<lparr>ws_duration = 100, ws_numberOfChannels = Some 2, ws_isPlaying = False,
      ws_hasWrapper = True, ws_wrapperWidth = 500\<rparr>"

definition pausedPlugin :: plugin where
  "pausedPlugin =
     exec (AddRegion (scenario_params 5 10) ''region-a'' 0)
       (newPlugin\<lparr>wavesurfer := Some host_paused\<rparr>)"

definition playingPlugin :: plugin where
  "playingPlugin = exec (HostChange (Some (host_paused\<lparr>ws_isPlaying := True\<rparr>))) pausedPlugin"

subsection \<open>States the plugin can reach\<close>

text \<open>The plugin states that the operations produce from a new plugin, and the
  statement that every region object of a plugin is one the repository built and
  operated on.\<close>

inductive plugin_reachable :: "plugin \<Rightarrow> bool" where
  created: "plugin_reachable newPlugin"
| exec_step: "plugin_reachable p \<Longrightarrow> plugin_reachable (exec op p)"

definition heap_reachable :: "plugin \<Rightarrow> bool" where
  "heap_reachable p = (\<forall>ref r. heap p ref = Some r \<longrightarrow> reachable r)"

text \<open>The events that a step appends are none of \<^verbatim>\<open>region-in\<close> and
  \<^verbatim>\<open>region-out\<close>.\<close>

definition extends_quietly :: "plugin \<Rightarrow> plugin \<Rightarrow> bool" where
  "extends_quietly p p1 =
     (\<exists>new. pluginEmitted p1 = pluginEmitted p @ new \<and> filter isInOut new = [])"

section \<open>Properties\<close>

subsection \<open>Auxiliary facts about the region methods\<close>

lemma js_index_Nil: "js_index [] i = None"
  by (simp add: js_index_def)

lemma overlapBlock_flag:
  "snd (snd (overlapBlock r sd ns ne)) = spec_overlapEvent r ns ne"
  by (auto simp: overlapBlock_def spec_overlapEvent_def previousNeighbor_def nextNeighbor_def Let_def
      js_index_Nil split: option.splits)

lemma overlapBlock_no_overlap:
  "\<not> spec_overlapEvent r ns ne \<Longrightarrow> overlapBlock r sd ns ne = (ns, ne, False)"
  by (auto simp: overlapBlock_def spec_overlapEvent_def Let_def split: option.splits)

lemma no_neighbours_no_overlap:
  "regionsList r = [] \<Longrightarrow> \<not> spec_overlapEvent r ns ne"
  by (simp add: spec_overlapEvent_def previousNeighbor_def nextNeighbor_def js_index_Nil)

lemma tentativeStart_spec:
  "tentativeStart r sd (deltaSeconds dx w (totalDuration r)) = spec_newStart r dx sd w"
  by (auto simp: tentativeStart_def spec_newStart_def deltaSeconds_def split: option.splits side.splits)

lemma tentativeEnd_spec:
  "tentativeEnd r sd (deltaSeconds dx w (totalDuration r)) = spec_newEnd r dx sd w"
  by (auto simp: tentativeEnd_def spec_newEnd_def deltaSeconds_def split: option.splits side.splits)

lemma renderPosition_fields:
  "start (renderPosition r) = start r"
  "end' (renderPosition r) = end' r"
  "emitted (renderPosition r) = emitted r"
  "totalDuration (renderPosition r) = totalDuration r"
  "regionsList (renderPosition r) = regionsList r"
  "regionsListIndex (renderPosition r) = regionsListIndex r"
  "intervals (renderPosition r) = intervals r"
  "runScrollAdjuster_Interval (renderPosition r) = runScrollAdjuster_Interval r"
  "scrollLeft (renderPosition r) = scrollLeft r"
  "minLength (renderPosition r) = minLength r"
  "maxLength (renderPosition r) = maxLength r"
  by (simp_all add: renderPosition_def Let_def)

lemma commitState_fields:
  "start (commitState r dx sd ns ne) = ns"
  "end' (commitState r dx sd ns ne) = ne"
  "emitted (commitState r dx sd ns ne) = emitted r @ [Update sd dx]"
  "totalDuration (commitState r dx sd ns ne) = totalDuration r"
  "regionsList (commitState r dx sd ns ne) = regionsList r"
  "regionsListIndex (commitState r dx sd ns ne) = regionsListIndex r"
  "intervals (commitState r dx sd ns ne) = intervals r"
  "runScrollAdjuster_Interval (commitState r dx sd ns ne) = runScrollAdjuster_Interval r"
  "scrollLeft (commitState r dx sd ns ne) = scrollLeft r"
  by (simp_all add: commitState_def renderPosition_def Let_def)

lemma stop_fields:
  "start (stopRunScrollAdjuster r) = start r"
  "end' (stopRunScrollAdjuster r) = end' r"
  "emitted (stopRunScrollAdjuster r) = emitted r"
  "totalDuration (stopRunScrollAdjuster r) = totalDuration r"
  "regionsList (stopRunScrollAdjuster r) = regionsList r"
  "regionsListIndex (stopRunScrollAdjuster r) = regionsListIndex r"
  "startPercentPosition (stopRunScrollAdjuster r) = startPercentPosition r"
  "endPercentPosition (stopRunScrollAdjuster r) = endPercentPosition r"
  "runScrollAdjuster_Interval (stopRunScrollAdjuster r) = runScrollAdjuster_Interval r"
  "scrollLeft (stopRunScrollAdjuster r) = scrollLeft r"
  "intervals (stopRunScrollAdjuster r) = (intervals r)(runScrollAdjuster_Interval r := None)"
  by (simp_all add: stopRunScrollAdjuster_def)

lemma onUpdate_detached: "onUpdate dx sd None r = r"
  by (simp add: onUpdate_def)

lemma onUpdate_overlap:
  assumes "spec_overlapEvent r (spec_newStart r dx sd w) (spec_newEnd r dx sd w)"
  shows "onUpdate dx sd (Some w) r =
           stopRunScrollAdjuster
             (commitState r dx sd
                (fst (overlapBlock r sd (spec_newStart r dx sd w) (spec_newEnd r dx sd w)))
                (fst (snd (overlapBlock r sd (spec_newStart r dx sd w) (spec_newEnd r dx sd w)))))"
proof -
  obtain a b c where ob: "overlapBlock r sd (spec_newStart r dx sd w) (spec_newEnd r dx sd w) = (a, b, c)"
    by (cases "overlapBlock r sd (spec_newStart r dx sd w) (spec_newEnd r dx sd w)") auto
  with assms overlapBlock_flag[of r sd "spec_newStart r dx sd w" "spec_newEnd r dx sd w"]
  have c by simp
  with ob show ?thesis
    by (simp add: onUpdate_def tentativeStart_spec tentativeEnd_spec commitState_def Let_def
        renderPosition_fields)
qed

lemma onUpdate_no_overlap:
  assumes "\<not> spec_overlapEvent r (spec_newStart r dx sd w) (spec_newEnd r dx sd w)"
  shows "onUpdate dx sd (Some w) r =
           (if spec_boundsTest r (spec_newStart r dx sd w) (spec_newEnd r dx sd w)
            then commitState r dx sd (spec_newStart r dx sd w) (spec_newEnd r dx sd w)
            else r)"
  using assms
  by (simp add: onUpdate_def tentativeStart_spec tentativeEnd_spec commitState_def Let_def
        renderPosition_fields overlapBlock_no_overlap spec_boundsTest_def)

lemma Region_fields:
  "start (Region params dur nch rnd h) = clampPosition dur (p_start params)"
  "end' (Region params dur nch rnd h) = clampPosition dur (nullish (p_end params) (p_start params))"
  "totalDuration (Region params dur nch rnd h) = dur"
  "regionsList (Region params dur nch rnd h) = []"
  "regionsListIndex (Region params dur nch rnd h) = 0"
  "emitted (Region params dur nch rnd h) = []"
  "intervals (Region params dur nch rnd h) = Map.empty"
  "minLength (Region params dur nch rnd h) = nullish (p_minLength params) 0"
  "maxLength (Region params dur nch rnd h) = p_maxLength params"
  "runScrollAdjuster_Interval (Region params dur nch rnd h) = h"
  "scrollLeft (Region params dur nch rnd h) = 0"
  by (simp_all add: Region_def renderPosition_def Let_def)

lemma scenarioA_fields:
  "start scenarioA_region = 5" "end' scenarioA_region = 10"
  "totalDuration scenarioA_region = 100" "regionsList scenarioA_region = []"
  "minLength scenarioA_region = 0" "maxLength scenarioA_region = None"
  "emitted scenarioA_region = []"
  by (simp_all add: scenarioA_region_def Region_fields scenario_params_def clampPosition_def nullish_def)

lemma scenarioB_fields:
  "start scenarioB_region = 18" "end' scenarioB_region = 30"
  "totalDuration scenarioB_region = 100"
  "previousNeighbor scenarioB_region = Some (scenarioB_entry 0 20)"
  "emitted scenarioB_region = []"
  "intervals scenarioB_region = Map.empty"
  by (simp_all add: scenarioB_region_def Region_fields scenario_params_def clampPosition_def
      nullish_def previousNeighbor_def js_index_def)

subsection \<open>Scenario A and the conversion of pixels to seconds\<close>

text \<open>
  Claim C6. The region [5, 10] without neighbours, on a timeline of 100 seconds in a
  container 500 pixels wide, receives a move of +50 pixels: the delta is
  50 / 500 * 100 = 10 seconds, the state [15, 20] is committed, and exactly one
  \<^verbatim>\<open>update\<close> notification is emitted. In general the delta in seconds is
  \<open>dx / width * totalDuration\<close>, and a committed move without an overlap event shifts
  both edges by it.
\<close>

theorem scenarioA_move_commits:
  "deltaSeconds 50 500 (totalDuration scenarioA_region) = 10
   \<and> start (onUpdate 50 None (Some 500) scenarioA_region) = 15
   \<and> end' (onUpdate 50 None (Some 500) scenarioA_region) = 20
   \<and> emitted (onUpdate 50 None (Some 500) scenarioA_region) = [Update None 50]
   \<and> (\<forall>dx w d. deltaSeconds dx w d = dx / w * d)
   \<and> (\<forall>r dx w. emitted (onUpdate dx None (Some w) r) \<noteq> emitted r
          \<and> \<not> spec_overlapEvent r (start r + dx / w * totalDuration r) (end' r + dx / w * totalDuration r)
        \<longrightarrow> start (onUpdate dx None (Some w) r) = start r + dx / w * totalDuration r
            \<and> end' (onUpdate dx None (Some w) r) = end' r + dx / w * totalDuration r)"
proof -
  have no: "\<not> spec_overlapEvent scenarioA_region ns ne" for ns ne
    by (rule no_neighbours_no_overlap) (simp add: scenarioA_fields)
  have ns: "spec_newStart scenarioA_region 50 None 500 = 15"
    and ne: "spec_newEnd scenarioA_region 50 None 500 = 20"
    by (simp_all add: spec_newStart_def spec_newEnd_def scenarioA_fields)
  have bt: "spec_boundsTest scenarioA_region 15 20"
    by (simp add: spec_boundsTest_def scenarioA_fields le_maxLength_def)
  have upd: "onUpdate 50 None (Some 500) scenarioA_region = commitState scenarioA_region 50 None 15 20"
    using onUpdate_no_overlap[of scenarioA_region 50 None 500] no ns ne bt by simp
  have gen: "start (onUpdate dx None (Some w) r) = start r + dx / w * totalDuration r
            \<and> end' (onUpdate dx None (Some w) r) = end' r + dx / w * totalDuration r"
    if "emitted (onUpdate dx None (Some w) r) \<noteq> emitted r"
      and "\<not> spec_overlapEvent r (start r + dx / w * totalDuration r) (end' r + dx / w * totalDuration r)"
    for r dx w
  proof -
    have n: "\<not> spec_overlapEvent r (spec_newStart r dx None w) (spec_newEnd r dx None w)"
      using that(2) by (simp add: spec_newStart_def spec_newEnd_def)
    show ?thesis
      using that(1) onUpdate_no_overlap[OF n]
      by (auto simp: commitState_fields spec_newStart_def spec_newEnd_def split: if_splits)
  qed
  show ?thesis
    using gen by (simp add: upd commitState_fields scenarioA_fields deltaSeconds_def)
qed


theorem scenarioA_move_commits_witness:
  "emitted (onUpdate 50 None (Some 500) scenarioA_region) \<noteq> emitted scenarioA_region
   \<and> \<not> spec_overlapEvent scenarioA_region
         (start scenarioA_region + 50 / 500 * totalDuration scenarioA_region)
         (end' scenarioA_region + 50 / 500 * totalDuration scenarioA_region)
   \<and> start (onUpdate 50 None (Some 500) scenarioA_region)
       = start scenarioA_region + 50 / 500 * totalDuration scenarioA_region
   \<and> end' (onUpdate 50 None (Some 500) scenarioA_region)
       = end' scenarioA_region + 50 / 500 * totalDuration scenarioA_region"
proof -
  have e: "emitted (onUpdate 50 None (Some 500) scenarioA_region) \<noteq> emitted scenarioA_region"
    using scenarioA_move_commits by (simp add: scenarioA_fields)
  have n: "\<not> spec_overlapEvent scenarioA_region
         (start scenarioA_region + 50 / 500 * totalDuration scenarioA_region)
         (end' scenarioA_region + 50 / 500 * totalDuration scenarioA_region)"
    by (rule no_neighbours_no_overlap) (simp add: scenarioA_fields)
  from scenarioA_move_commits e n show ?thesis by blast
qed

subsection \<open>Acceptance of a sample\<close>

text \<open>
  Claim C2. For a call \<^verbatim>\<open>_onUpdate(dx, side)\<close> on a region whose element is attached
  to a parent of positive width, the tentative (possibly clamped) state is committed if
  and only if an overlap event occurred or the bounds-and-length test holds (the
  length being computed before clamping); a commit stores the clamped positions and
  emits one \<^verbatim>\<open>update\<close>; when nothing is committed, \<^verbatim>\<open>start\<close>, \<^verbatim>\<open>end\<close>,
  \<^verbatim>\<open>startPercentPosition\<close> and \<^verbatim>\<open>endPercentPosition\<close> are unchanged and no
  \<^verbatim>\<open>update\<close> is emitted. A call on a region whose element has no parent returns
  before any of this and changes nothing.
\<close>

theorem onUpdate_commits_iff_accepted:
  "0 < w \<Longrightarrow>
   (emitted (onUpdate dx sd (Some w) r) \<noteq> emitted r) = spec_accepts r dx sd w
   \<and> (spec_accepts r dx sd w \<longrightarrow>
        emitted (onUpdate dx sd (Some w) r) = emitted r @ [Update sd dx]
        \<and> start (onUpdate dx sd (Some w) r)
            = fst (overlapBlock r sd (spec_newStart r dx sd w) (spec_newEnd r dx sd w))
        \<and> end' (onUpdate dx sd (Some w) r)
            = fst (snd (overlapBlock r sd (spec_newStart r dx sd w) (spec_newEnd r dx sd w))))
   \<and> (\<not> spec_accepts r dx sd w \<longrightarrow>
        start (onUpdate dx sd (Some w) r) = start r
        \<and> end' (onUpdate dx sd (Some w) r) = end' r
        \<and> startPercentPosition (onUpdate dx sd (Some w) r) = startPercentPosition r
        \<and> endPercentPosition (onUpdate dx sd (Some w) r) = endPercentPosition r
        \<and> emitted (onUpdate dx sd (Some w) r) = emitted r)
   \<and> onUpdate dx sd None r = r"
proof (cases "spec_overlapEvent r (spec_newStart r dx sd w) (spec_newEnd r dx sd w)")
  case True
  then have acc: "spec_accepts r dx sd w" by (simp add: spec_accepts_def)
  show ?thesis
    by (simp add: onUpdate_overlap[OF True] acc stop_fields commitState_fields onUpdate_detached)
next
  case False
  then have acc: "spec_accepts r dx sd w
      = spec_boundsTest r (spec_newStart r dx sd w) (spec_newEnd r dx sd w)"
    by (simp add: spec_accepts_def)
  show ?thesis
    by (simp add: onUpdate_no_overlap[OF False] acc commitState_fields
        overlapBlock_no_overlap[OF False] onUpdate_detached)
qed

theorem onUpdate_commits_iff_accepted_witness:
  "(0::real) < 500
   \<and> \<not> spec_accepts scenarioA_region 500 None 500
   \<and> start (onUpdate 500 None (Some 500) scenarioA_region) = 5
   \<and> end' (onUpdate 500 None (Some 500) scenarioA_region) = 10
   \<and> emitted (onUpdate 500 None (Some 500) scenarioA_region) = []
   \<and> spec_accepts scenarioA_region 50 None 500
   \<and> emitted (onUpdate 50 None (Some 500) scenarioA_region) = [Update None 50]"
proof -
  have no: "\<not> spec_overlapEvent scenarioA_region ns ne" for ns ne
    by (rule no_neighbours_no_overlap) (simp add: scenarioA_fields)
  have rej: "\<not> spec_accepts scenarioA_region 500 None 500"
    by (simp add: spec_accepts_def no spec_boundsTest_def spec_newStart_def spec_newEnd_def
        scenarioA_fields)
  have acc: "spec_accepts scenarioA_region 50 None 500"
    by (simp add: spec_accepts_def no spec_boundsTest_def spec_newStart_def spec_newEnd_def
        scenarioA_fields le_maxLength_def)
  have w: "(0::real) < 500" by simp
  show ?thesis
    using onUpdate_commits_iff_accepted[OF w, of 500 None scenarioA_region]
      onUpdate_commits_iff_accepted[OF w, of 50 None scenarioA_region] rej acc
    by (simp add: scenarioA_fields)
qed

subsection \<open>An update by zero pixels\<close>

text \<open>
  Claim C3, as stated, fails: a zero delta on the region of scenario A passes the
  bounds-and-length test, so the unchanged positions are committed again and an
  \<^verbatim>\<open>update\<close> notification is emitted.
\<close>

theorem zero_delta_emits_update:
  "emitted (onUpdate 0 None (Some 500) scenarioA_region) = [Update None 0]
   \<and> emitted scenarioA_region = []"
proof -
  have no: "\<not> spec_overlapEvent scenarioA_region ns ne" for ns ne
    by (rule no_neighbours_no_overlap) (simp add: scenarioA_fields)
  have bt: "spec_boundsTest scenarioA_region (spec_newStart scenarioA_region 0 None 500)
              (spec_newEnd scenarioA_region 0 None 500)"
    by (simp add: spec_boundsTest_def spec_newStart_def spec_newEnd_def scenarioA_fields le_maxLength_def)
  show ?thesis
    using onUpdate_no_overlap[of scenarioA_region 0 None 500] no bt
    by (simp add: commitState_fields scenarioA_fields)
qed

text \<open>The tentative positions of a zero delta are the current ones.\<close>

lemma spec_new_zero:
  "spec_newStart r 0 sd w = start r" "spec_newEnd r 0 sd w = end' r"
  by (simp_all add: spec_newStart_def spec_newEnd_def split: option.splits side.splits)

text \<open>
  Claim C3, amended. For every region attached to a parent of positive width and every
  side, \<^verbatim>\<open>_onUpdate(0, side)\<close> without an overlap event never changes \<^verbatim>\<open>start\<close>
  or \<^verbatim>\<open>end\<close>; it emits one \<^verbatim>\<open>update\<close> notification exactly when the current
  positions pass the bounds-and-length test.
\<close>

theorem zero_delta_keeps_position:
  "0 < w \<Longrightarrow> \<not> spec_overlapEvent r (start r) (end' r) \<Longrightarrow>
   start (onUpdate 0 sd (Some w) r) = start r
   \<and> end' (onUpdate 0 sd (Some w) r) = end' r
   \<and> emitted (onUpdate 0 sd (Some w) r)
       = (if spec_boundsTest r (start r) (end' r) then emitted r @ [Update sd 0] else emitted r)"
proof -
  assume "\<not> spec_overlapEvent r (start r) (end' r)"
  then have n: "\<not> spec_overlapEvent r (spec_newStart r 0 sd w) (spec_newEnd r 0 sd w)"
    by (simp add: spec_new_zero)
  show ?thesis
    by (simp add: onUpdate_no_overlap[OF n] spec_new_zero commitState_fields)
qed

theorem zero_delta_keeps_position_witness:
  "(0::real) < 500 \<and> \<not> spec_overlapEvent scenarioA_region (start scenarioA_region) (end' scenarioA_region)
   \<and> start (onUpdate 0 (Some End) (Some 500) scenarioA_region) = 5
   \<and> end' (onUpdate 0 (Some End) (Some 500) scenarioA_region) = 10
   \<and> emitted (onUpdate 0 (Some End) (Some 500) scenarioA_region) = [Update (Some End) 0]"
proof -
  have w: "(0::real) < 500" by simp
  have n: "\<not> spec_overlapEvent scenarioA_region (start scenarioA_region) (end' scenarioA_region)"
    by (rule no_neighbours_no_overlap) (simp add: scenarioA_fields)
  have bt: "spec_boundsTest scenarioA_region 5 10"
    by (simp add: spec_boundsTest_def scenarioA_fields le_maxLength_def)
  show ?thesis
    using zero_delta_keeps_position[OF w n, of "Some End"] n bt
    by (simp add: scenarioA_fields)
qed

subsection \<open>What the operations preserve\<close>

text \<open>A call of \<^verbatim>\<open>_onUpdate\<close> returns the state unchanged, or the committed state,
  or the committed state with the timer cancelled.\<close>

lemma onUpdate_cases:
  "onUpdate dx sd pw r = r
   \<or> (\<exists>ns ne. onUpdate dx sd pw r = commitState r dx sd ns ne)
   \<or> (\<exists>ns ne. onUpdate dx sd pw r = stopRunScrollAdjuster (commitState r dx sd ns ne))"
proof (cases pw)
  case None
  then show ?thesis by (simp add: onUpdate_detached)
next
  case (Some w)
  show ?thesis
  proof (cases "spec_overlapEvent r (spec_newStart r dx sd w) (spec_newEnd r dx sd w)")
    case True
    show ?thesis unfolding Some onUpdate_overlap[OF True] by blast
  next
    case False
    show ?thesis unfolding Some onUpdate_no_overlap[OF False] by auto
  qed
qed

lemma onUpdate_regionsList: "regionsList (onUpdate dx sd pw r) = regionsList r"
  using onUpdate_cases[of dx sd pw r] by (auto simp: stop_fields commitState_fields)

lemma onUpdate_scrollLeft: "scrollLeft (onUpdate dx sd pw r) = scrollLeft r"
  using onUpdate_cases[of dx sd pw r] by (auto simp: stop_fields commitState_fields)

lemma onUpdate_handle:
  "runScrollAdjuster_Interval (onUpdate dx sd pw r) = runScrollAdjuster_Interval r"
  using onUpdate_cases[of dx sd pw r] by (auto simp: stop_fields commitState_fields)

lemma oneTimer_stop: "oneTimer r \<Longrightarrow> intervals (stopRunScrollAdjuster r) = Map.empty"
proof (rule ext)
  fix h
  assume "oneTimer r"
  then show "intervals (stopRunScrollAdjuster r) h = None"
    by (cases "h = runScrollAdjuster_Interval r") (auto simp: oneTimer_def stop_fields)
qed

lemma oneTimer_stop_preserved: "oneTimer r \<Longrightarrow> oneTimer (stopRunScrollAdjuster r)"
  by (simp add: oneTimer_def stop_fields)

lemma oneTimer_commitState: "oneTimer r \<Longrightarrow> oneTimer (commitState r dx sd ns ne)"
  by (simp add: oneTimer_def commitState_fields)

lemma oneTimer_onUpdate: "oneTimer r \<Longrightarrow> oneTimer (onUpdate dx sd pw r)"
  using onUpdate_cases[of dx sd pw r]
  by (auto simp: oneTimer_stop_preserved oneTimer_commitState)

lemma intervalTick_idle: "intervals r h = None \<Longrightarrow> intervalTick h sw pw r = r"
  by (simp add: intervalTick_def)

lemma runScrollAdjuster_regionsList:
  "regionsList (runScrollAdjuster d sp hc dx sd r) = regionsList r"
  by (simp add: runScrollAdjuster_def setInterval_def stop_fields Let_def)

lemma oneTimer_runScrollAdjuster: "oneTimer r \<Longrightarrow> oneTimer (runScrollAdjuster d sp hc dx sd r)"
  by (auto simp: runScrollAdjuster_def setInterval_def Let_def oneTimer_def stop_fields)

lemma adjustScroll_regionsList: "regionsList (adjustScroll dx sd geom r) = regionsList r"
  by (simp add: adjustScroll_def runScrollAdjuster_regionsList stop_fields Let_def split: option.splits)

lemma oneTimer_scrollLeft: "oneTimer (r\<lparr>scrollLeft := v\<rparr>) = oneTimer r"
  by (simp add: oneTimer_def)

lemma oneTimer_adjustScroll: "oneTimer r \<Longrightarrow> oneTimer (adjustScroll dx sd geom r)"
  by (simp add: adjustScroll_def oneTimer_runScrollAdjuster oneTimer_stop_preserved
      oneTimer_scrollLeft Let_def split: option.splits)

lemma intervalTick_regionsList: "regionsList (intervalTick h sw pw r) = regionsList r"
  by (simp add: intervalTick_def onUpdate_regionsList Let_def split: option.splits)

lemma oneTimer_intervalTick: "oneTimer r \<Longrightarrow> oneTimer (intervalTick h sw pw r)"
  by (simp add: intervalTick_def oneTimer_onUpdate oneTimer_scrollLeft Let_def split: option.splits)

lemma setOptions_stage_fields:
  "regionsList (optColor opts r) = regionsList r"
  "regionsList (optDrag opts r) = regionsList r"
  "regionsList (optPosition opts r) = regionsList r"
  "regionsList (optContent opts r) = regionsList r"
  "regionsList (optId opts r) = regionsList r"
  "regionsList (optResize opts r) = regionsList r"
  "intervals (optColor opts r) = intervals r"
  "intervals (optDrag opts r) = intervals r"
  "intervals (optPosition opts r) = intervals r"
  "intervals (optContent opts r) = intervals r"
  "intervals (optId opts r) = intervals r"
  "intervals (optResize opts r) = intervals r"
  "runScrollAdjuster_Interval (optColor opts r) = runScrollAdjuster_Interval r"
  "runScrollAdjuster_Interval (optDrag opts r) = runScrollAdjuster_Interval r"
  "runScrollAdjuster_Interval (optPosition opts r) = runScrollAdjuster_Interval r"
  "runScrollAdjuster_Interval (optContent opts r) = runScrollAdjuster_Interval r"
  "runScrollAdjuster_Interval (optId opts r) = runScrollAdjuster_Interval r"
  "runScrollAdjuster_Interval (optResize opts r) = runScrollAdjuster_Interval r"
  by (simp_all add: optColor_def optDrag_def optPosition_def optContent_def optId_def
      optResize_def renderPosition_fields Let_def split: option.splits)

lemma setOptions_regionsList: "regionsList (setOptions opts r) = regionsList r"
  by (simp add: setOptions_def setOptions_stage_fields)

lemma oneTimer_setOptions: "oneTimer r \<Longrightarrow> oneTimer (setOptions opts r)"
  by (simp add: setOptions_def oneTimer_def setOptions_stage_fields)

lemma applyRegionOp_regionsList: "regionsList (applyRegionOp op r) = regionsList r"
  by (cases op)
    (simp_all add: onUpdate_regionsList onMove_def onResize_def adjustScroll_regionsList
      onEndResizing_def onEndDrag_def intervalTick_regionsList documentMouseUpRegionsListener_def
      stop_fields setTotalDuration_def renderPosition_fields setOptions_regionsList)

lemma oneTimer_applyRegionOp: "oneTimer r \<Longrightarrow> oneTimer (applyRegionOp op r)"
proof (cases op)
  case (OpSetTotalDuration d)
  assume "oneTimer r"
  then show ?thesis unfolding OpSetTotalDuration
    by (simp add: setTotalDuration_def oneTimer_def renderPosition_fields)
next
  case OpEndResizing
  assume "oneTimer r"
  then show ?thesis unfolding OpEndResizing by (simp add: onEndResizing_def oneTimer_def)
next
  case OpEndDrag
  assume "oneTimer r"
  then show ?thesis unfolding OpEndDrag by (simp add: onEndDrag_def oneTimer_def)
qed (simp_all add: oneTimer_onUpdate onMove_def onResize_def oneTimer_adjustScroll
      oneTimer_intervalTick documentMouseUpRegionsListener_def oneTimer_stop_preserved
      oneTimer_setOptions)

lemma oneTimer_Region: "oneTimer (Region params dur nch rnd h)"
  by (simp add: oneTimer_def Region_fields)

lemma reachable_regionsList: "reachable r \<Longrightarrow> regionsList r = []"
  by (induction rule: reachable.induct) (simp_all add: Region_fields applyRegionOp_regionsList)

lemma reachable_oneTimer: "reachable r \<Longrightarrow> oneTimer r"
  by (induction rule: reachable.induct) (simp_all add: oneTimer_Region oneTimer_applyRegionOp)

subsection \<open>Scenario B: the clamp at the previous neighbour\<close>

text \<open>The overlap block when the tentative start lies before the end of the previous
  neighbour.\<close>

lemma overlapBlock_previous:
  assumes "previousNeighbor r = Some a" "ns < e_end a"
  shows "overlapBlock r sd ns ne =
           (e_end a + 0.000000001,
            (if sd \<noteq> None then ne else e_end a + 0.000000001 + (end' r - start r)),
            True)"
proof -
  from assms(1) have "regionsList r \<noteq> []"
    by (auto simp: previousNeighbor_def js_index_Nil)
  with assms show ?thesis
    by (simp add: overlapBlock_def Let_def)
qed

text \<open>
  Claim C4, as stated, fails: for B = [18, 30] behind A = [0, 20], a resize of the start
  by -5 pixels (of 500, on 100 seconds) clamps the start to 20 + 1e-9 and leaves the
  end at 30, so the length is not the original 12.
\<close>

theorem scenarioB_resize_changes_length:
  "start (onUpdate (- 5) (Some Start) (Some 500) scenarioB_region) = 20 + 0.000000001
   \<and> end' (onUpdate (- 5) (Some Start) (Some 500) scenarioB_region) = 30
   \<and> end' (onUpdate (- 5) (Some Start) (Some 500) scenarioB_region)
       - start (onUpdate (- 5) (Some Start) (Some 500) scenarioB_region) \<noteq> 12"
proof -
  have ns: "spec_newStart scenarioB_region (- 5) (Some Start) 500 = 17"
    and ne: "spec_newEnd scenarioB_region (- 5) (Some Start) 500 = 30"
    by (simp_all add: spec_newStart_def spec_newEnd_def scenarioB_fields)
  have ov: "spec_overlapEvent scenarioB_region (spec_newStart scenarioB_region (- 5) (Some Start) 500)
              (spec_newEnd scenarioB_region (- 5) (Some Start) 500)"
    by (simp add: ns ne spec_overlapEvent_def scenarioB_fields scenarioB_entry_def)
  have ob: "overlapBlock scenarioB_region (Some Start) 17 30 = (20 + 0.000000001, 30, True)"
    using overlapBlock_previous[of scenarioB_region "scenarioB_entry 0 20" 17 "Some Start" 30]
    by (simp add: scenarioB_fields scenarioB_entry_def)
  show ?thesis
    using onUpdate_overlap[OF ov]
    by (simp add: ns ne ob stop_fields commitState_fields)
qed

text \<open>
  Claim C4, amended. When region B = [18, 30] has a previous neighbour A with
  A.end = 20 and a resize of the start would put the start before 20, the update is an
  overlap event: it clamps B.start to 20 + 1e-9, leaves B.end at 30 as computed, emits
  \<^verbatim>\<open>update\<close> and cancels the timer whose handle the region holds. The original
  length 12 is kept by a move under the same condition, not by a resize.
\<close>

theorem overlap_clamp_at_previous_neighbour:
  assumes "start r = 18" and "end' r = 30"
    and "previousNeighbor r = Some a" and "e_end a = 20"
    and "0 < w" and "18 + dx / w * totalDuration r < 20"
  shows "spec_overlapEvent r (spec_newStart r dx (Some Start) w) (spec_newEnd r dx (Some Start) w)
       \<and> start (onUpdate dx (Some Start) (Some w) r) = 20 + 0.000000001
       \<and> end' (onUpdate dx (Some Start) (Some w) r) = 30
       \<and> emitted (onUpdate dx (Some Start) (Some w) r) = emitted r @ [Update (Some Start) dx]
       \<and> intervals (onUpdate dx (Some Start) (Some w) r)
            (runScrollAdjuster_Interval (onUpdate dx (Some Start) (Some w) r)) = None
       \<and> start (onUpdate dx None (Some w) r) = 20 + 0.000000001
       \<and> end' (onUpdate dx None (Some w) r) - start (onUpdate dx None (Some w) r) = 12"
proof -
  have ns: "spec_newStart r dx sd w = 18 + dx / w * totalDuration r" if "sd \<noteq> Some End" for sd
    using that assms(1) by (auto simp: spec_newStart_def split: option.splits side.splits)
  have ne: "spec_newEnd r dx (Some Start) w = 30"
    using assms(2) by (simp add: spec_newEnd_def)
  have ov: "spec_overlapEvent r (spec_newStart r dx sd w) (spec_newEnd r dx sd w)"
    if "sd \<noteq> Some End" for sd
    using assms(3,4,6) by (simp add: ns[OF that] spec_overlapEvent_def)
  have ob: "overlapBlock r sd (spec_newStart r dx sd w) (spec_newEnd r dx sd w) =
           (20 + 0.000000001,
            (if sd \<noteq> None then spec_newEnd r dx sd w else 20 + 0.000000001 + 12), True)"
    if "sd \<noteq> Some End" for sd
    using overlapBlock_previous[OF assms(3), of "spec_newStart r dx sd w" sd "spec_newEnd r dx sd w"]
      assms(1,2,4,6)
    by (simp add: ns[OF that])
  have s1: "Some Start \<noteq> Some End" and s2: "(None :: side option) \<noteq> Some End" by simp_all
  have resize: "onUpdate dx (Some Start) (Some w) r =
      stopRunScrollAdjuster (commitState r dx (Some Start) (20 + 0.000000001) 30)"
    using onUpdate_overlap[OF ov[OF s1]] ob[OF s1] ne by simp
  have move: "onUpdate dx None (Some w) r =
      stopRunScrollAdjuster (commitState r dx None (20 + 0.000000001) (20 + 0.000000001 + 12))"
    using onUpdate_overlap[OF ov[OF s2]] ob[OF s2] by simp
  show ?thesis
    using ov[OF s1] by (simp add: resize move stop_fields commitState_fields)
qed

theorem overlap_clamp_at_previous_neighbour_witness:
  "start scenarioB_region = 18 \<and> end' scenarioB_region = 30
   \<and> previousNeighbor scenarioB_region = Some (scenarioB_entry 0 20)
   \<and> e_end (scenarioB_entry 0 20) = 20 \<and> (0::real) < 500
   \<and> 18 + (- 5) / 500 * totalDuration scenarioB_region < 20
   \<and> start (onUpdate (- 5) (Some Start) (Some 500) scenarioB_region) = 20 + 0.000000001
   \<and> end' (onUpdate (- 5) (Some Start) (Some 500) scenarioB_region) = 30
   \<and> emitted (onUpdate (- 5) (Some Start) (Some 500) scenarioB_region) = [Update (Some Start) (- 5)]"
proof -
  have h: "start scenarioB_region = 18" "end' scenarioB_region = 30"
    "previousNeighbor scenarioB_region = Some (scenarioB_entry 0 20)"
    "e_end (scenarioB_entry 0 20) = 20" "(0::real) < 500"
    "18 + (- 5) / 500 * totalDuration scenarioB_region < 20"
    by (simp_all add: scenarioB_fields scenarioB_entry_def)
  show ?thesis
    using overlap_clamp_at_previous_neighbour[OF h] h
    by (simp add: scenarioB_fields)
qed

subsection \<open>Scenario D: an overlap event stops the autoscroll\<close>

text \<open>The state of scenario D: the timer with handle 1 is live.\<close>

lemma scenarioD_fields:
  "start scenarioD_region = 18" "end' scenarioD_region = 30"
  "totalDuration scenarioD_region = 100"
  "previousNeighbor scenarioD_region = Some (scenarioB_entry 0 20)"
  "runScrollAdjuster_Interval scenarioD_region = Suc 0"
  "intervals scenarioD_region (Suc 0)
     = Some \<lparr>cb_direction = False, cb_speed = 10, cb_dx = - 5, cb_side = Some Start\<rparr>"
  "scrollLeft scenarioD_region = 300"
  "resize scenarioD_region"
  by (simp_all add: scenarioD_region_def scenarioD_geom_def adjustScroll_def runScrollAdjuster_def
      setInterval_def stopRunScrollAdjuster_def Let_def scenarioB_region_def Region_def
      renderPosition_def scenario_params_def clampPosition_def nullish_def previousNeighbor_def
      js_index_def)

text \<open>With the geometry of scenario D and a resize of the start to the left,
  \<^verbatim>\<open>adjustScroll\<close> takes its first branch: it cancels the held timer and starts a new
  one of speed 10; it does not move the scroll offset itself.\<close>

lemma scenarioD_adjustScroll:
  "adjustScroll (- 5) (Some Start) (Some scenarioD_geom) r =
     setInterval \<lparr>cb_direction = False, cb_speed = 10, cb_dx = - 5, cb_side = Some Start\<rparr>
       (stopRunScrollAdjuster r)"
  by (simp add: adjustScroll_def scenarioD_geom_def runScrollAdjuster_def Let_def)

lemma setInterval_fields:
  "intervals (setInterval cb r) (runScrollAdjuster_Interval (setInterval cb r)) = Some cb"
  "scrollLeft (setInterval cb r) = scrollLeft r"
  by (simp_all add: setInterval_def)

text \<open>
  Claim C5, as stated, fails in its conclusion that no timer-driven scroll mutation
  follows the clamp. In scenario D the call \<^verbatim>\<open>onResize(-5, 'start')\<close> makes a call of
  \<^verbatim>\<open>_onUpdate\<close> in which an overlap event occurs and which cancels the held timer;
  \<^verbatim>\<open>onResize\<close> then calls \<^verbatim>\<open>adjustScroll\<close>, which starts a new timer, and the next
  tick of that timer moves the scroll offset from 300 to 290.
\<close>

theorem autoscroll_restarts_after_overlap:
  "spec_overlapEvent scenarioD_region (spec_newStart scenarioD_region (- 5) (Some Start) 500)
     (spec_newEnd scenarioD_region (- 5) (Some Start) 500)
   \<and> intervals (onUpdate (- 5) (Some Start) (Some 500) scenarioD_region)
        (runScrollAdjuster_Interval (onUpdate (- 5) (Some Start) (Some 500) scenarioD_region))
       = None
   \<and> intervals (onResize (- 5) (Some Start) (Some 500) (Some scenarioD_geom) scenarioD_region)
        (runScrollAdjuster_Interval
           (onResize (- 5) (Some Start) (Some 500) (Some scenarioD_geom) scenarioD_region))
       = Some \<lparr>cb_direction = False, cb_speed = 10, cb_dx = - 5, cb_side = Some Start\<rparr>
   \<and> scrollLeft (onResize (- 5) (Some Start) (Some 500) (Some scenarioD_geom) scenarioD_region)
       = 300
   \<and> scrollLeft
        (intervalTick
           (runScrollAdjuster_Interval
              (onResize (- 5) (Some Start) (Some 500) (Some scenarioD_geom) scenarioD_region))
           2000 (Some 500)
           (onResize (- 5) (Some Start) (Some 500) (Some scenarioD_geom) scenarioD_region))
       = 290"
proof -
  let ?cb = "\<lparr>cb_direction = False, cb_speed = 10, cb_dx = - 5, cb_side = Some Start\<rparr>"
  let ?u = "onUpdate (- 5) (Some Start) (Some 500) scenarioD_region"
  let ?R = "setInterval ?cb (stopRunScrollAdjuster ?u)"
  have ov: "spec_overlapEvent scenarioD_region (spec_newStart scenarioD_region (- 5) (Some Start) 500)
        (spec_newEnd scenarioD_region (- 5) (Some Start) 500)"
    by (simp add: spec_overlapEvent_def spec_newStart_def spec_newEnd_def scenarioD_fields
        scenarioB_entry_def)
  have cancelled: "intervals ?u (runScrollAdjuster_Interval ?u) = None"
    unfolding onUpdate_overlap[OF ov] by (simp add: stop_fields)
  have res: "onResize (- 5) (Some Start) (Some 500) (Some scenarioD_geom) scenarioD_region = ?R"
    by (simp add: onResize_def scenarioD_fields scenarioD_adjustScroll)
  have live: "intervals ?R (runScrollAdjuster_Interval ?R) = Some ?cb"
    by (rule setInterval_fields)
  have off: "scrollLeft ?R = 300"
    by (simp add: setInterval_fields stop_fields onUpdate_scrollLeft scenarioD_fields)
  have tick: "scrollLeft (intervalTick (runScrollAdjuster_Interval ?R) 2000 (Some 500) ?R) = 290"
    by (simp add: intervalTick_def live off onUpdate_scrollLeft)
  show ?thesis
    unfolding res using ov cancelled live off tick by simp
qed

text \<open>
  Claim C5, amended. In every call of \<^verbatim>\<open>_onUpdate\<close> (on an element attached to a
  parent of positive width) in which an overlap event occurs, the timer whose handle
  the region holds is cancelled before the call returns, whatever the pointer does,
  and the call itself does not move the scroll offset; when that timer was the only
  live one, no timer is live in the state that the call returns, so a timer tick on
  that state changes nothing.
\<close>

theorem overlap_cancels_timer:
  assumes "0 < w"
    and "spec_overlapEvent r (spec_newStart r dx sd w) (spec_newEnd r dx sd w)"
  shows "runScrollAdjuster_Interval (onUpdate dx sd (Some w) r) = runScrollAdjuster_Interval r
       \<and> intervals (onUpdate dx sd (Some w) r) (runScrollAdjuster_Interval r) = None
       \<and> scrollLeft (onUpdate dx sd (Some w) r) = scrollLeft r
       \<and> (oneTimer r \<longrightarrow>
            intervals (onUpdate dx sd (Some w) r) = Map.empty
            \<and> (\<forall>h sw pw. intervalTick h sw pw (onUpdate dx sd (Some w) r)
                          = onUpdate dx sd (Some w) r))"
proof -
  let ?c = "commitState r dx sd
              (fst (overlapBlock r sd (spec_newStart r dx sd w) (spec_newEnd r dx sd w)))
              (fst (snd (overlapBlock r sd (spec_newStart r dx sd w) (spec_newEnd r dx sd w))))"
  have eq: "onUpdate dx sd (Some w) r = stopRunScrollAdjuster ?c"
    by (rule onUpdate_overlap[OF assms(2)])
  have empty: "intervals (stopRunScrollAdjuster ?c) = Map.empty" if "oneTimer r"
    by (rule oneTimer_stop) (rule oneTimer_commitState[OF that])
  have idle: "intervalTick h sw pw (stopRunScrollAdjuster ?c) = stopRunScrollAdjuster ?c"
    if "oneTimer r" for h sw pw
    by (rule intervalTick_idle) (simp add: empty[OF that])
  show ?thesis
    unfolding eq using empty idle by (simp add: stop_fields commitState_fields)
qed

theorem overlap_cancels_timer_witness:
  "(0::real) < 500
   \<and> spec_overlapEvent scenarioD_region (spec_newStart scenarioD_region (- 5) (Some Start) 500)
        (spec_newEnd scenarioD_region (- 5) (Some Start) 500)
   \<and> oneTimer scenarioD_region
   \<and> intervals scenarioD_region (runScrollAdjuster_Interval scenarioD_region) \<noteq> None
   \<and> scrollLeft (intervalTick (Suc 0) 2000 (Some 500) scenarioD_region) = 290
   \<and> intervals (onUpdate (- 5) (Some Start) (Some 500) scenarioD_region) = Map.empty
   \<and> intervalTick (Suc 0) 2000 (Some 500) (onUpdate (- 5) (Some Start) (Some 500) scenarioD_region)
       = onUpdate (- 5) (Some Start) (Some 500) scenarioD_region"
proof -
  have w: "(0::real) < 500" by simp
  have ov: "spec_overlapEvent scenarioD_region (spec_newStart scenarioD_region (- 5) (Some Start) 500)
        (spec_newEnd scenarioD_region (- 5) (Some Start) 500)"
    by (simp add: spec_overlapEvent_def spec_newStart_def spec_newEnd_def scenarioD_fields
        scenarioB_entry_def)
  have "reachable (Region (scenario_params 18 30) 100 0 ''region-b'' 0)"
    by (rule reachable.constructed)
  then have "oneTimer (Region (scenario_params 18 30) 100 0 ''region-b'' 0)"
    by (rule reachable_oneTimer)
  then have "oneTimer (scenarioB_region\<lparr>scrollLeft := 300\<rparr>)"
    by (simp add: oneTimer_def scenarioB_region_def)
  then have one: "oneTimer scenarioD_region"
    unfolding scenarioD_region_def by (rule oneTimer_adjustScroll)
  have tick: "scrollLeft (intervalTick (Suc 0) 2000 (Some 500) scenarioD_region) = 290"
    by (simp add: intervalTick_def scenarioD_fields onUpdate_scrollLeft)
  show ?thesis
    using overlap_cancels_timer[OF w ov] one tick ov
    by (simp add: scenarioD_fields)
qed

subsection \<open>Bounds of the committed positions\<close>

text \<open>
  Claim C1, as stated, fails: the constructor clamps \<^verbatim>\<open>start\<close> and \<^verbatim>\<open>end\<close>
  separately, so parameters with the end before the start give a region with
  \<^verbatim>\<open>start > end\<close>.
\<close>

theorem constructor_keeps_reversed_edges:
  "start reversed_region = 5 \<and> end' reversed_region = 3
   \<and> totalDuration reversed_region = 100 \<and> \<not> spec_invariant reversed_region"
  by (simp add: reversed_region_def spec_invariant_def Region_fields scenario_params_def
      clampPosition_def nullish_def)

text \<open>\<^verbatim>\<open>clampPosition\<close> maps into the timeline and is monotone.\<close>

lemma clampPosition_range: "0 \<le> dur \<Longrightarrow> 0 \<le> clampPosition dur t \<and> clampPosition dur t \<le> dur"
  by (simp add: clampPosition_def)

lemma clampPosition_mono: "s \<le> e \<Longrightarrow> clampPosition dur s \<le> clampPosition dur e"
  by (simp add: clampPosition_def max_def min_def)

lemma setOptions_position_fields:
  "start (optColor opts r) = start r" "end' (optColor opts r) = end' r"
  "totalDuration (optColor opts r) = totalDuration r"
  "start (optDrag opts r) = start r" "end' (optDrag opts r) = end' r"
  "totalDuration (optDrag opts r) = totalDuration r"
  "start (optContent opts r) = start r" "end' (optContent opts r) = end' r"
  "totalDuration (optContent opts r) = totalDuration r"
  "start (optId opts r) = start r" "end' (optId opts r) = end' r"
  "totalDuration (optId opts r) = totalDuration r"
  "start (optResize opts r) = start r" "end' (optResize opts r) = end' r"
  "totalDuration (optResize opts r) = totalDuration r"
  by (simp_all add: optColor_def optDrag_def optContent_def optId_def optResize_def Let_def
      split: option.splits)

lemma optPosition_given:
  "o_start opts \<noteq> None \<or> o_end opts \<noteq> None \<Longrightarrow>
   start (optPosition opts r) = clampPosition (totalDuration r) (nullish (o_start opts) (start r))
   \<and> end' (optPosition opts r) = clampPosition (totalDuration r)
        (nullish (o_end opts)
           (if start r = end' r
            then clampPosition (totalDuration r) (nullish (o_start opts) (start r)) else end' r))
   \<and> totalDuration (optPosition opts r) = totalDuration r"
  by (simp add: optPosition_def renderPosition_fields Let_def)

lemma optPosition_absent:
  "o_start opts = None \<Longrightarrow> o_end opts = None \<Longrightarrow> optPosition opts r = r"
  by (simp add: optPosition_def)

lemma setOptions_position:
  "o_start opts \<noteq> None \<or> o_end opts \<noteq> None \<Longrightarrow>
   start (setOptions opts r) = clampPosition (totalDuration r) (nullish (o_start opts) (start r))
   \<and> end' (setOptions opts r) = clampPosition (totalDuration r)
        (nullish (o_end opts)
           (if start r = end' r
            then clampPosition (totalDuration r) (nullish (o_start opts) (start r)) else end' r))
   \<and> totalDuration (setOptions opts r) = totalDuration r"
  using optPosition_given[of opts "optDrag opts (optColor opts r)"]
  by (simp add: setOptions_def setOptions_position_fields)

lemma setOptions_no_position:
  "o_start opts = None \<Longrightarrow> o_end opts = None \<Longrightarrow>
   start (setOptions opts r) = start r \<and> end' (setOptions opts r) = end' r
   \<and> totalDuration (setOptions opts r) = totalDuration r"
  by (simp add: setOptions_def setOptions_position_fields optPosition_absent)

text \<open>
  Claim C1, amended. On a timeline of non-negative duration, after the constructor and
  after a \<^verbatim>\<open>setOptions\<close> that gives a start or an end, each of \<^verbatim>\<open>start\<close> and
  \<^verbatim>\<open>end\<close> lies in [0, totalDuration]; \<open>start \<le> end\<close> holds as well when the given
  start is not after the given end; a \<^verbatim>\<open>setOptions\<close> that gives neither leaves the
  positions as they were. After a sample of \<^verbatim>\<open>_onUpdate\<close> accepted without an
  overlap event, \<open>0 \<le> start \<le> end \<le> totalDuration\<close> holds.
\<close>

theorem committed_positions_bounds:
  "(0 \<le> dur \<longrightarrow>
      onTimeline (Region params dur nch rnd h)
      \<and> (p_start params \<le> nullish (p_end params) (p_start params)
           \<longrightarrow> spec_invariant (Region params dur nch rnd h)))
   \<and> (0 \<le> totalDuration r \<and> (o_start opts \<noteq> None \<or> o_end opts \<noteq> None)
        \<longrightarrow> onTimeline (setOptions opts r))
   \<and> (0 \<le> totalDuration r \<and> o_start opts = Some s \<and> o_end opts = Some e \<and> s \<le> e
        \<longrightarrow> spec_invariant (setOptions opts r))
   \<and> (o_start opts = None \<and> o_end opts = None
        \<longrightarrow> start (setOptions opts r) = start r \<and> end' (setOptions opts r) = end' r
            \<and> totalDuration (setOptions opts r) = totalDuration r)
   \<and> (0 < w \<and> \<not> spec_overlapEvent r (spec_newStart r dx sd w) (spec_newEnd r dx sd w)
        \<and> emitted (onUpdate dx sd (Some w) r) \<noteq> emitted r
        \<longrightarrow> spec_invariant (onUpdate dx sd (Some w) r))"
proof -
  have c1: "onTimeline (Region params dur nch rnd h)" if "0 \<le> dur"
    using clampPosition_range[OF that] by (simp add: onTimeline_def Region_fields)
  have c2: "spec_invariant (Region params dur nch rnd h)"
    if "0 \<le> dur" "p_start params \<le> nullish (p_end params) (p_start params)"
    using clampPosition_range[OF that(1)] clampPosition_mono[OF that(2)]
    by (simp add: spec_invariant_def Region_fields)
  have c3: "onTimeline (setOptions opts r)"
    if "0 \<le> totalDuration r" "o_start opts \<noteq> None \<or> o_end opts \<noteq> None"
    using setOptions_position[OF that(2)] clampPosition_range[OF that(1)]
    by (simp add: onTimeline_def)
  have c4: "spec_invariant (setOptions opts r)"
    if "0 \<le> totalDuration r" "o_start opts = Some s" "o_end opts = Some e" "s \<le> e"
  proof -
    have "o_start opts \<noteq> None \<or> o_end opts \<noteq> None" using that(2) by simp
    from setOptions_position[OF this] that(2,3) clampPosition_range[OF that(1)]
      clampPosition_mono[OF that(4)]
    show ?thesis by (simp add: spec_invariant_def nullish_def)
  qed
  have c5: "spec_invariant (onUpdate dx sd (Some w) r)"
    if n: "\<not> spec_overlapEvent r (spec_newStart r dx sd w) (spec_newEnd r dx sd w)"
      and e: "emitted (onUpdate dx sd (Some w) r) \<noteq> emitted r"
  proof -
    from e have bt: "spec_boundsTest r (spec_newStart r dx sd w) (spec_newEnd r dx sd w)"
      unfolding onUpdate_no_overlap[OF n] by (auto split: if_splits)
    then show ?thesis
      unfolding onUpdate_no_overlap[OF n]
      by (simp add: spec_invariant_def spec_boundsTest_def commitState_fields)
  qed
  show ?thesis
    using c1 c2 c3 c4 c5 setOptions_no_position by blast
qed

theorem committed_positions_bounds_witness:
  "onTimeline reversed_region
   \<and> spec_invariant scenarioA_region
   \<and> onTimeline (setOptions (only_start_option 50) scenarioA_region)
   \<and> start (setOptions (only_start_option 50) scenarioA_region) = 50
   \<and> end' (setOptions (only_start_option 50) scenarioA_region) = 10
   \<and> spec_invariant (onUpdate 50 None (Some 500) scenarioA_region)"
proof -
  have d: "(0::real) \<le> 100" by simp
  have p: "p_start (scenario_params 5 10) \<le> nullish (p_end (scenario_params 5 10)) (p_start (scenario_params 5 10))"
    by (simp add: scenario_params_def nullish_def)
  have t: "0 \<le> totalDuration scenarioA_region" by (simp add: scenarioA_fields)
  have o: "o_start (only_start_option 50) \<noteq> None \<or> o_end (only_start_option 50) \<noteq> None"
    by (simp add: only_start_option_def)
  have w: "(0::real) < 500" by simp
  have n: "\<not> spec_overlapEvent scenarioA_region (spec_newStart scenarioA_region 50 None 500)
             (spec_newEnd scenarioA_region 50 None 500)"
    by (rule no_neighbours_no_overlap) (simp add: scenarioA_fields)
  have e: "emitted (onUpdate 50 None (Some 500) scenarioA_region) \<noteq> emitted scenarioA_region"
    using onUpdate_no_overlap[OF n]
    by (simp add: spec_boundsTest_def spec_newStart_def spec_newEnd_def scenarioA_fields
        le_maxLength_def commitState_fields)
  have pos: "start (setOptions (only_start_option 50) scenarioA_region) = 50
     \<and> end' (setOptions (only_start_option 50) scenarioA_region) = 10"
    using setOptions_position[OF o, of scenarioA_region]
    by (simp add: scenarioA_fields only_start_option_def nullish_def clampPosition_def)
  show ?thesis
    using committed_positions_bounds[of 100 "scenario_params 5 3" 0 "''region-r''" 0
        scenarioA_region "only_start_option 50" 0 0 500 50 None]
      committed_positions_bounds[of 100 "scenario_params 5 10" 0 "''region-a''" 0
        scenarioA_region "only_start_option 50" 0 0 500 50 None]
      d p t o w n e pos
    unfolding reversed_region_def scenarioA_region_def[symmetric]
    by (simp add: scenarioA_region_def)
qed

subsection \<open>The directional lock of the drag recogniser\<close>

text \<open>The handler never changes the start time of the session; a sample that activates
  the session is past the touch delay, and so is every later one on a clock that
  does not run backwards; an active session stays active.\<close>

lemma onPointerMove_touchStartTime:
  "touchStartTime (fst (onPointerMove cfg ev rct now s)) = touchStartTime s"
  by (simp add: onPointerMove_def Let_def)

lemma activation_after_touch_delay:
  "\<not> isDragging s \<Longrightarrow> isDragging (fst (onPointerMove cfg ev rct now s)) \<Longrightarrow>
   \<not> (c_isTouchDevice cfg \<and> now - touchStartTime s < c_touchDelay cfg)"
  by (auto simp: onPointerMove_def Let_def split: if_splits)

lemma onPointerMove_stays_dragging:
  "isDragging s \<Longrightarrow> isDragging (fst (onPointerMove cfg ev rct now s))"
  by (simp add: onPointerMove_def Let_def)

text \<open>
  Claim C7. In \<^verbatim>\<open>makeDraggable\<close> with \<^verbatim>\<open>side = 'end'\<close> or \<^verbatim>\<open>'start'\<close>, for
  every move sample that is handled after activation (that is, not dropped by the
  touch delay) and whose pointer has crossed to the opposite side of the element in
  the direction of travel, no callback is invoked, yet the anchor
  \<^verbatim>\<open>(startX, startY)\<close> is advanced to the position of the sample, so that the delta
  that the next sample passes to \<^verbatim>\<open>onDrag\<close> is measured from it.
\<close>

theorem directional_lock_suppresses_drag:
  assumes side: "c_side cfg = Some ''start'' \<or> c_side cfg = Some ''end''"
    and active: "isDragging s"
    and past: "\<not> (c_isTouchDevice cfg \<and> now - touchStartTime s < c_touchDelay cfg)"
    and cross: "crossed (clientX ev - startX s) (clientX ev) rct"
  shows "snd (onPointerMove cfg ev rct now s) = []
       \<and> startX (fst (onPointerMove cfg ev rct now s)) = clientX ev
       \<and> startY (fst (onPointerMove cfg ev rct now s)) = clientY ev
       \<and> isDragging (fst (onPointerMove cfg ev rct now s))
       \<and> (\<forall>ev' rct' now'.
             \<not> (c_isTouchDevice cfg \<and> now' - touchStartTime s < c_touchDelay cfg)
             \<and> \<not> crossed (clientX ev' - clientX ev) (clientX ev') rct'
             \<longrightarrow> snd (onPointerMove cfg ev' rct' now' (fst (onPointerMove cfg ev rct now s)))
                 = [OnDrag (clientX ev' - clientX ev) (clientY ev' - clientY ev)
                      (clientX ev' - rect_left rct') (clientY ev' - rect_top rct')])"
proof -
  let ?s1 = "s\<lparr>isDragging := True, startX := clientX ev, startY := clientY ev\<rparr>"
  have step: "onPointerMove cfg ev rct now s = (?s1, [])"
    using side active past cross by (auto simp: onPointerMove_def Let_def)
  have nf: "\<not> falsy_side (c_side cfg)"
    using side by (auto simp: falsy_side_def)
  have nxt: "snd (onPointerMove cfg ev' rct' now' ?s1)
                 = [OnDrag (clientX ev' - clientX ev) (clientY ev' - clientY ev)
                      (clientX ev' - rect_left rct') (clientY ev' - rect_top rct')]"
    if "\<not> (c_isTouchDevice cfg \<and> now' - touchStartTime s < c_touchDelay cfg)"
      and "\<not> crossed (clientX ev' - clientX ev) (clientX ev') rct'"
    for ev' rct' now'
    using that nf by (auto simp: onPointerMove_def Let_def)
  show ?thesis
    unfolding step using nxt by simp
qed

theorem directional_lock_suppresses_drag_witness:
  "(c_side lock_config = Some ''start'' \<or> c_side lock_config = Some ''end'')
   \<and> isDragging lock_session
   \<and> \<not> (c_isTouchDevice lock_config \<and> 250 - touchStartTime lock_session < c_touchDelay lock_config)
   \<and> crossed (clientX lock_event - startX lock_session) (clientX lock_event) lock_rect
   \<and> snd (onPointerMove lock_config lock_event lock_rect 250 lock_session) = []
   \<and> startX (fst (onPointerMove lock_config lock_event lock_rect 250 lock_session)) = 90
   \<and> startY (fst (onPointerMove lock_config lock_event lock_rect 250 lock_session)) = 42"
proof -
  have h: "c_side lock_config = Some ''start'' \<or> c_side lock_config = Some ''end''"
    "isDragging lock_session"
    "\<not> (c_isTouchDevice lock_config \<and> 250 - touchStartTime lock_session < c_touchDelay lock_config)"
    "crossed (clientX lock_event - startX lock_session) (clientX lock_event) lock_rect"
    by (simp_all add: lock_config_def lock_session_def lock_event_def lock_rect_def crossed_def)
  show ?thesis
    using directional_lock_suppresses_drag[OF h] h
    by (simp add: lock_event_def)
qed

subsection \<open>Creating regions before the host is ready\<close>

text \<open>
  Claim C8, as stated, fails for drag-to-create: on a plugin whose host is not yet
  set, \<^verbatim>\<open>enableDragSelection\<close> returns the do-nothing disposer and throws
  nothing.
\<close>

theorem dragSelection_before_ready_is_silent:
  "wavesurfer newPlugin = None
   \<and> enableDragSelection (scenario_params 0 0) 3 newPlugin = Inr (NoopDisposer, newPlugin)
   \<and> addRegion (scenario_params 0 0) ''region-a'' 0 newPlugin
       = Inl (Error ''WaveSurfer is not initialized'')"
  by (simp add: enableDragSelection_def addRegion_def newPlugin_def)

text \<open>The fields after \<^verbatim>\<open>saveRegion\<close>, after one \<^verbatim>\<open>ready\<close> handler, and after
  all of them.\<close>

lemma saveRegion_fields:
  "regions (saveRegion ref p) = regions p @ [ref]"
  "pluginEmitted (saveRegion ref p) = pluginEmitted p @ [RegionCreated ref]"
  "heap (saveRegion ref p) = heap p"
  "readyOnce (saveRegion ref p) = readyOnce p"
  "wavesurfer (saveRegion ref p) = wavesurfer p"
  "regionIn (saveRegion ref p) = regionIn p"
  by (simp_all add: saveRegion_def)

lemma readyHandler_fields:
  "regions (readyHandler d p ref) = regions p @ [ref]"
  "pluginEmitted (readyHandler d p ref) = pluginEmitted p @ [RegionCreated ref]"
  "readyOnce (readyHandler d p ref) = readyOnce p"
  "regionIn (readyHandler d p ref) = regionIn p"
  by (simp_all add: readyHandler_def saveRegion_fields)

lemma readyHandler_heap:
  "heap (readyHandler d p ref) x =
     (if x = ref then map_option (setTotalDuration d) (heap p ref) else heap p x)"
  by (simp add: readyHandler_def saveRegion_fields split: option.splits)

lemma ready_fold_fields:
  "regions (foldl (readyHandler d) p refs) = regions p @ refs
   \<and> pluginEmitted (foldl (readyHandler d) p refs) = pluginEmitted p @ map RegionCreated refs
   \<and> readyOnce (foldl (readyHandler d) p refs) = readyOnce p
   \<and> regionIn (foldl (readyHandler d) p refs) = regionIn p"
  by (induction refs arbitrary: p) (simp_all add: readyHandler_fields)

lemma readyHandler_heap_dom:
  "heap p x \<noteq> None \<Longrightarrow> heap (readyHandler d p ref) x \<noteq> None"
  by (auto simp: readyHandler_heap)

lemma ready_fold_heap_dom:
  "heap p x \<noteq> None \<Longrightarrow> heap (foldl (readyHandler d) p refs) x \<noteq> None"
proof (induction refs arbitrary: p)
  case Nil
  then show ?case by simp
next
  case (Cons a refs)
  from Cons.prems have "heap (readyHandler d p a) x \<noteq> None"
    by (rule readyHandler_heap_dom)
  then show ?case using Cons.IH by simp
qed

lemma setTotalDuration_total: "totalDuration (setTotalDuration d r) = d"
  by (simp add: setTotalDuration_def renderPosition_fields)

lemma onReady_last:
  assumes "readyOnce p = refs @ [ref]" and "heap p ref \<noteq> None"
  shows "\<exists>r. heap (onReady d p) ref = Some r \<and> totalDuration r = d"
proof -
  let ?q = "foldl (readyHandler d) (p\<lparr>readyOnce := []\<rparr>) refs"
  have "heap ?q ref \<noteq> None"
    by (rule ready_fold_heap_dom) (simp add: assms(2))
  then obtain r0 where r0: "heap ?q ref = Some r0" by auto
  have "onReady d p = readyHandler d ?q ref"
    by (simp add: onReady_def assms(1))
  then have "heap (onReady d p) ref = Some (setTotalDuration d r0)"
    by (simp add: readyHandler_heap r0)
  then show ?thesis by (simp add: setTotalDuration_total)
qed

lemma addRegion_deferred:
  assumes "wavesurfer p = Some ws" and "ws_duration ws = 0"
  shows "addRegion options rnd h p =
     Inr (nextRef p,
          p\<lparr>heap := (heap p)(nextRef p \<mapsto>
                   Region options 0 (nullish (ws_numberOfChannels ws) 0) rnd h),
            nextRef := Suc (nextRef p),
            readyOnce := readyOnce p @ [nextRef p]\<rparr>)"
  using assms by (simp add: addRegion_def allocRegion_def Let_def)

lemma addRegion_saved:
  assumes "wavesurfer p = Some ws" and "ws_duration ws \<noteq> 0"
  shows "addRegion options rnd h p =
     Inr (nextRef p,
          saveRegion (nextRef p)
            (p\<lparr>heap := (heap p)(nextRef p \<mapsto>
                   Region options (ws_duration ws) (nullish (ws_numberOfChannels ws) 0) rnd h),
              nextRef := Suc (nextRef p)\<rparr>))"
  using assms by (simp add: addRegion_def allocRegion_def Let_def)

text \<open>A region created while the duration is unknown is built on a timeline of length
  0, so both of its edges are clamped to 0, whatever was asked for, and
  \<^verbatim>\<open>_setTotalDuration\<close> does not clamp again.\<close>

lemma deferred_region_is_marker:
  "start (Region options 0 nch rnd h) = 0
   \<and> end' (Region options 0 nch rnd h) = 0
   \<and> start (setTotalDuration d (Region options 0 nch rnd h)) = 0
   \<and> end' (setTotalDuration d (Region options 0 nch rnd h)) = 0"
  by (simp add: Region_fields clampPosition_def setTotalDuration_def renderPosition_fields
      max_def min_def)

text \<open>
  Claim C8, amended. Before the host is set, \<^verbatim>\<open>addRegion\<close> throws at once, while
  \<^verbatim>\<open>enableDragSelection\<close> returns a do-nothing disposer and leaves the plugin as
  it was, as it also does when the wrapper of the host is not an element. With the
  host set and the duration still unknown (zero), \<^verbatim>\<open>addRegion\<close>
  returns the new region without saving it or emitting \<^verbatim>\<open>region-created\<close>; when
  \<^verbatim>\<open>ready\<close> delivers the duration, the region takes that duration, joins the
  regions of the plugin and \<^verbatim>\<open>region-created\<close> is emitted. With a known duration
  the region is saved at once.
\<close>

theorem creation_before_ready:
  "(wavesurfer p = None \<longrightarrow>
      addRegion options rnd h p = Inl (Error ''WaveSurfer is not initialized'')
      \<and> enableDragSelection options threshold p = Inr (NoopDisposer, p))
   \<and> (wavesurfer p = Some ws \<and> ws_duration ws = 0 \<longrightarrow>
        (\<exists>p1. addRegion options rnd h p = Inr (nextRef p, p1)
           \<and> regions p1 = regions p
           \<and> pluginEmitted p1 = pluginEmitted p
           \<and> readyOnce p1 = readyOnce p @ [nextRef p]
           \<and> (\<forall>d. regions (onReady d p1) = regions p @ readyOnce p @ [nextRef p]
                  \<and> pluginEmitted (onReady d p1)
                      = pluginEmitted p @ map RegionCreated (readyOnce p) @ [RegionCreated (nextRef p)]
                  \<and> readyOnce (onReady d p1) = []
                  \<and> (\<exists>r. heap (onReady d p1) (nextRef p) = Some r \<and> totalDuration r = d))))
   \<and> (wavesurfer p = Some ws \<and> ws_duration ws \<noteq> 0 \<longrightarrow>
        (\<exists>p1. addRegion options rnd h p = Inr (nextRef p, p1)
           \<and> regions p1 = regions p @ [nextRef p]
           \<and> pluginEmitted p1 = pluginEmitted p @ [RegionCreated (nextRef p)]))
   \<and> (wavesurfer p = Some ws \<and> \<not> ws_hasWrapper ws \<longrightarrow>
        enableDragSelection options threshold p = Inr (NoopDisposer, p))"
proof -
  have d: "enableDragSelection options threshold p = Inr (NoopDisposer, p)"
    if "wavesurfer p = Some ws" and "\<not> ws_hasWrapper ws"
    using that by (simp add: enableDragSelection_def)
  have a: "addRegion options rnd h p = Inl (Error ''WaveSurfer is not initialized'')
      \<and> enableDragSelection options threshold p = Inr (NoopDisposer, p)"
    if "wavesurfer p = None"
    using that by (simp add: addRegion_def enableDragSelection_def)
  have b: "\<exists>p1. addRegion options rnd h p = Inr (nextRef p, p1)
           \<and> regions p1 = regions p
           \<and> pluginEmitted p1 = pluginEmitted p
           \<and> readyOnce p1 = readyOnce p @ [nextRef p]
           \<and> (\<forall>d. regions (onReady d p1) = regions p @ readyOnce p @ [nextRef p]
                  \<and> pluginEmitted (onReady d p1)
                      = pluginEmitted p @ map RegionCreated (readyOnce p) @ [RegionCreated (nextRef p)]
                  \<and> readyOnce (onReady d p1) = []
                  \<and> (\<exists>r. heap (onReady d p1) (nextRef p) = Some r \<and> totalDuration r = d))"
    if ws: "wavesurfer p = Some ws" and z: "ws_duration ws = 0"
  proof -
    let ?p1 = "p\<lparr>heap := (heap p)(nextRef p \<mapsto>
                   Region options 0 (nullish (ws_numberOfChannels ws) 0) rnd h),
            nextRef := Suc (nextRef p),
            readyOnce := readyOnce p @ [nextRef p]\<rparr>"
    have eq: "addRegion options rnd h p = Inr (nextRef p, ?p1)"
      by (rule addRegion_deferred[OF ws z])
    have ro: "readyOnce ?p1 = readyOnce p @ [nextRef p]" by simp
    have hp: "heap ?p1 (nextRef p) \<noteq> None" by simp
    have last: "\<exists>r. heap (onReady d ?p1) (nextRef p) = Some r \<and> totalDuration r = d" for d
      by (rule onReady_last[OF ro hp])
    have flds: "regions (onReady d ?p1) = regions p @ readyOnce p @ [nextRef p]
                  \<and> pluginEmitted (onReady d ?p1)
                      = pluginEmitted p @ map RegionCreated (readyOnce p) @ [RegionCreated (nextRef p)]
                  \<and> readyOnce (onReady d ?p1) = []" for d
      using ready_fold_fields[of d "?p1\<lparr>readyOnce := []\<rparr>" "readyOnce p @ [nextRef p]"]
      by (simp add: onReady_def)
    show ?thesis
      using eq last flds by (intro exI[of _ ?p1]) simp
  qed
  have c: "\<exists>p1. addRegion options rnd h p = Inr (nextRef p, p1)
           \<and> regions p1 = regions p @ [nextRef p]
           \<and> pluginEmitted p1 = pluginEmitted p @ [RegionCreated (nextRef p)]"
    if ws: "wavesurfer p = Some ws" and nz: "ws_duration ws \<noteq> 0"
    unfolding addRegion_saved[OF ws nz] by (simp add: saveRegion_fields)
  show ?thesis using a b c d by blast
qed

theorem creation_before_ready_witness:
  "wavesurfer newPlugin = None
   \<and> addRegion (scenario_params 5 10) ''region-a'' 0 newPlugin
       = Inl (Error ''WaveSurfer is not initialized'')
   \<and> wavesurfer pendingPlugin = Some host_unknown_duration
   \<and> ws_duration host_unknown_duration = 0
   \<and> (\<exists>p1. addRegion (scenario_params 5 10) ''region-a'' 0 pendingPlugin = Inr (0, p1)
         \<and> regions p1 = [] \<and> pluginEmitted p1 = []
         \<and> regions (onReady 100 p1) = [0]
         \<and> pluginEmitted (onReady 100 p1) = [RegionCreated 0]
         \<and> (\<exists>r. heap (onReady 100 p1) 0 = Some r \<and> totalDuration r = 100))"
proof -
  have n: "wavesurfer newPlugin = None" by (simp add: newPlugin_def)
  have w: "wavesurfer pendingPlugin = Some host_unknown_duration"
    "ws_duration host_unknown_duration = 0"
    by (simp_all add: pendingPlugin_def host_unknown_duration_def)
  have f: "nextRef pendingPlugin = 0" "regions pendingPlugin = []"
    "pluginEmitted pendingPlugin = []" "readyOnce pendingPlugin = []"
    by (simp_all add: pendingPlugin_def newPlugin_def)
  from creation_before_ready[of newPlugin "scenario_params 5 10" "''region-a''" 0 3 host_unknown_duration] n
  have 1: "addRegion (scenario_params 5 10) ''region-a'' 0 newPlugin
       = Inl (Error ''WaveSurfer is not initialized'')" by blast
  from creation_before_ready[of pendingPlugin "scenario_params 5 10" "''region-a''" 0 3 host_unknown_duration] w
  obtain p1 where p1: "addRegion (scenario_params 5 10) ''region-a'' 0 pendingPlugin = Inr (nextRef pendingPlugin, p1)"
      "regions p1 = regions pendingPlugin" "pluginEmitted p1 = pluginEmitted pendingPlugin"
      "\<forall>d. regions (onReady d p1) = regions pendingPlugin @ readyOnce pendingPlugin @ [nextRef pendingPlugin]
                  \<and> pluginEmitted (onReady d p1)
                      = pluginEmitted pendingPlugin @ map RegionCreated (readyOnce pendingPlugin) @ [RegionCreated (nextRef pendingPlugin)]
                  \<and> readyOnce (onReady d p1) = []
                  \<and> (\<exists>r. heap (onReady d p1) (nextRef pendingPlugin) = Some r \<and> totalDuration r = d)"
    by blast
  from p1(4) have 2: "regions (onReady 100 p1) = [0]" "pluginEmitted (onReady 100 p1) = [RegionCreated 0]"
     "\<exists>r. heap (onReady 100 p1) 0 = Some r \<and> totalDuration r = 100"
    by (simp_all add: f)
  show ?thesis
    using n w 1 p1(1,2,3) 2 by (simp add: f)
qed

subsection \<open>Region-in and region-out\<close>

text \<open>What \<^verbatim>\<open>timeupdate\<close> emits, and that no other operation emits
  \<^verbatim>\<open>region-in\<close> or \<^verbatim>\<open>region-out\<close>.\<close>

lemma timeupdate_emitted:
  "pluginEmitted (timeupdate t p) =
     (if playing p then
        (case findRegionIn (heap p) t (regions p) of
           Some ref \<Rightarrow> if regionIn p = Some ref then pluginEmitted p
                       else pluginEmitted p @ [RegionIn ref]
         | None \<Rightarrow> (case regionIn p of
                      Some old \<Rightarrow> pluginEmitted p @ [RegionOut old]
                    | None \<Rightarrow> pluginEmitted p))
      else pluginEmitted p)"
  by (auto simp: timeupdate_def Let_def split: option.splits)

lemma timeupdate_paused:
  "\<not> playing p \<Longrightarrow>
   pluginEmitted (timeupdate t p) = pluginEmitted p \<and> regionIn (timeupdate t p) = regionIn p"
  by (simp add: timeupdate_def Let_def)

lemma forwardRegionEvents_no_inout: "filter isInOut (forwardRegionEvents ref es) = []"
  by (induction ref es rule: forwardRegionEvents.induct) simp_all

lemma map_RegionCreated_no_inout: "filter isInOut (map RegionCreated refs) = []"
  by (induction refs) simp_all

lemma extends_quietly_same: "pluginEmitted p1 = pluginEmitted p \<Longrightarrow> extends_quietly p p1"
  by (simp add: extends_quietly_def)

lemma extends_quietly_new:
  "pluginEmitted p1 = pluginEmitted p @ new \<Longrightarrow> filter isInOut new = [] \<Longrightarrow> extends_quietly p p1"
  by (auto simp: extends_quietly_def)

lemma addRegion_quiet: "extends_quietly p (exec (AddRegion options rnd h) p)"
proof (cases "wavesurfer p")
  case None
  then show ?thesis by (simp add: addRegion_def extends_quietly_same)
next
  case (Some ws)
  show ?thesis
  proof (cases "ws_duration ws = 0")
    case True
    show ?thesis
      by (rule extends_quietly_same) (simp add: addRegion_deferred[OF Some True])
  next
    case False
    show ?thesis
      by (rule extends_quietly_new[where new = "[RegionCreated (nextRef p)]"])
        (simp_all add: addRegion_saved[OF Some False] saveRegion_fields)
  qed
qed

lemma enableDragSelection_quiet: "extends_quietly p (exec (EnableDragSelection options th) p)"
  by (rule extends_quietly_same) (simp add: enableDragSelection_def split: option.splits)

lemma dragSelectionStart_quiet: "extends_quietly p (dragSelectionStart i x rnd h p)"
  by (rule extends_quietly_same)
    (simp add: dragSelectionStart_def allocRegion_def Let_def split: option.splits)

lemma dragSelectionDrag_quiet: "extends_quietly p (dragSelectionDrag i dx x pw p)"
  by (rule extends_quietly_same) (simp add: dragSelectionDrag_def split: option.splits)

lemma dragSelectionEnd_quiet: "extends_quietly p (dragSelectionEnd i p)"
proof (cases "i < length (dragSelections p)")
  case False
  then show ?thesis by (simp add: dragSelectionEnd_def extends_quietly_same)
next
  case True
  show ?thesis
  proof (cases "ds_region (dragSelections p ! i)")
    case None
    with True show ?thesis by (simp add: dragSelectionEnd_def extends_quietly_same)
  next
    case (Some region)
    show ?thesis
      by (rule extends_quietly_new[where new = "[RegionCreated region]"])
        (simp_all add: dragSelectionEnd_def True Some Let_def saveRegion_fields)
  qed
qed

lemma onReady_quiet: "extends_quietly p (onReady d p)"
  using ready_fold_fields[of d "p\<lparr>readyOnce := []\<rparr>" "readyOnce p"]
  by (intro extends_quietly_new[where new = "map RegionCreated (readyOnce p)"])
    (simp_all add: onReady_def map_RegionCreated_no_inout)

lemma onRegion_quiet: "extends_quietly p (onRegion ref op p)"
proof (cases "heap p ref")
  case None
  then show ?thesis by (simp add: onRegion_def extends_quietly_same)
next
  case (Some r)
  show ?thesis
  proof (cases "ref \<in> set (regions p)")
    case True
    show ?thesis
      by (rule extends_quietly_new[where new = "forwardRegionEvents ref
            (drop (length (emitted r)) (emitted (applyRegionOp op r)))"])
        (simp_all add: onRegion_def Some True Let_def forwardRegionEvents_no_inout)
  next
    case False
    show ?thesis
      by (rule extends_quietly_same) (simp add: onRegion_def Some False Let_def)
  qed
qed

lemma onRegionRemoved_quiet: "extends_quietly p (onRegionRemoved ref p)"
proof (cases "ref \<in> set (regions p)")
  case True
  show ?thesis
    by (rule extends_quietly_new[where new = "[RegionRemoved ref]"])
      (simp_all add: onRegionRemoved_def True)
next
  case False
  then show ?thesis by (simp add: onRegionRemoved_def extends_quietly_same)
qed

lemma exec_quiet_unless_timeupdate:
  "(\<forall>t. op \<noteq> TimeUpdate t) \<Longrightarrow> extends_quietly p (exec op p)"
proof (cases op)
  case (AddRegion options rnd h)
  show ?thesis unfolding AddRegion by (rule addRegion_quiet)
next
  case (EnableDragSelection options th)
  show ?thesis unfolding EnableDragSelection by (rule enableDragSelection_quiet)
next
  case (DragSelectionStart i x rnd h)
  show ?thesis unfolding DragSelectionStart by (simp add: dragSelectionStart_quiet)
next
  case (DragSelectionDrag i dx x pw)
  show ?thesis unfolding DragSelectionDrag by (simp add: dragSelectionDrag_quiet)
next
  case (DragSelectionEnd i)
  show ?thesis unfolding DragSelectionEnd by (simp add: dragSelectionEnd_quiet)
next
  case (TimeUpdate t)
  assume "\<forall>t. op \<noteq> TimeUpdate t"
  with TimeUpdate show ?thesis by simp
next
  case (Ready d)
  show ?thesis unfolding Ready by (simp add: onReady_quiet)
next
  case (OnRegion ref rop)
  show ?thesis unfolding OnRegion by (simp add: onRegion_quiet)
next
  case (RegionRemove ref)
  show ?thesis unfolding RegionRemove by (simp add: onRegionRemoved_quiet)
next
  case (HostChange ws)
  show ?thesis unfolding HostChange by (simp add: extends_quietly_same)
qed

text \<open>
  Claim C10. A \<^verbatim>\<open>timeupdate\<close> delivered while the host is not playing emits nothing
  and leaves \<^verbatim>\<open>regionIn\<close> as it was, whether or not the current time lies in a
  region; and whenever an operation of the plugin emits \<^verbatim>\<open>region-in\<close> or
  \<^verbatim>\<open>region-out\<close>, the operation is a \<^verbatim>\<open>timeupdate\<close> and the host is playing.
\<close>

theorem in_out_only_while_playing:
  "(\<not> playing p \<longrightarrow>
      pluginEmitted (timeupdate t p) = pluginEmitted p
      \<and> regionIn (timeupdate t p) = regionIn p)
   \<and> (\<exists>new. pluginEmitted (exec op p) = pluginEmitted p @ new
        \<and> (filter isInOut new \<noteq> [] \<longrightarrow> (\<exists>t'. op = TimeUpdate t') \<and> playing p))"
proof -
  have step: "\<exists>new. pluginEmitted (exec op p) = pluginEmitted p @ new
        \<and> (filter isInOut new \<noteq> [] \<longrightarrow> (\<exists>t'. op = TimeUpdate t') \<and> playing p)"
  proof (cases "\<exists>t'. op = TimeUpdate t'")
    case False
    then have "extends_quietly p (exec op p)"
      by (intro exec_quiet_unless_timeupdate) simp
    then show ?thesis by (auto simp: extends_quietly_def)
  next
    case True
    then obtain t' where op: "op = TimeUpdate t'" by blast
    show ?thesis
    proof (cases "playing p")
      case False
      then have "pluginEmitted (exec op p) = pluginEmitted p @ []"
        by (simp add: op timeupdate_paused)
      then show ?thesis using False by (intro exI[of _ "[]"]) simp
    next
      case True
      have "\<exists>new. pluginEmitted (timeupdate t' p) = pluginEmitted p @ new"
        by (auto simp: timeupdate_emitted split: option.splits)
      then show ?thesis using True op by auto
    qed
  qed
  show ?thesis using timeupdate_paused[of p t] step by blast
qed

lemma pausedPlugin_fields:
  "wavesurfer pausedPlugin = Some host_paused"
  "regions pausedPlugin = [0]"
  "regionIn pausedPlugin = None"
  "pluginEmitted pausedPlugin = [RegionCreated 0]"
  "heap pausedPlugin 0 = Some (Region (scenario_params 5 10) 100 2 ''region-a'' 0)"
  by (simp_all add: pausedPlugin_def addRegion_def allocRegion_def saveRegion_def newPlugin_def
      host_paused_def nullish_def Let_def)

theorem in_out_only_while_playing_witness:
  "\<not> playing pausedPlugin
   \<and> findRegionIn (heap pausedPlugin) 7 (regions pausedPlugin) = Some 0
   \<and> pluginEmitted (timeupdate 7 pausedPlugin) = [RegionCreated 0]
   \<and> regionIn (timeupdate 7 pausedPlugin) = None
   \<and> playing playingPlugin
   \<and> pluginEmitted (exec (TimeUpdate 7) playingPlugin) = [RegionCreated 0, RegionIn 0]"
proof -
  have np: "\<not> playing pausedPlugin"
    by (simp add: playing_def pausedPlugin_fields host_paused_def)
  have pos: "start (Region (scenario_params 5 10) 100 2 ''region-a'' 0) = 5"
    "end' (Region (scenario_params 5 10) 100 2 ''region-a'' 0) = 10"
    by (simp_all add: Region_fields scenario_params_def clampPosition_def nullish_def)
  have fnd: "findRegionIn (heap pausedPlugin) 7 (regions pausedPlugin) = Some 0"
    by (simp add: pausedPlugin_fields pos)
  have pl: "playing playingPlugin"
    by (simp add: playingPlugin_def playing_def)
  have flds: "heap playingPlugin = heap pausedPlugin" "regions playingPlugin = regions pausedPlugin"
    "regionIn playingPlugin = None" "pluginEmitted playingPlugin = [RegionCreated 0]"
    by (simp_all add: playingPlugin_def pausedPlugin_fields)
  have emit: "pluginEmitted (exec (TimeUpdate 7) playingPlugin) = [RegionCreated 0, RegionIn 0]"
    by (simp add: timeupdate_emitted pl flds fnd)
  show ?thesis
    using in_out_only_while_playing[of pausedPlugin 7 "TimeUpdate 7"] np fnd pl emit
    by (simp add: pausedPlugin_fields)
qed

subsection \<open>Regions built by the repository have no neighbours\<close>

text \<open>Every operation of the plugin keeps the region objects among those that the
  region operations reach from the constructor.\<close>

lemma heap_reachable_same: "heap p1 = heap p \<Longrightarrow> heap_reachable p \<Longrightarrow> heap_reachable p1"
  by (simp add: heap_reachable_def)

lemma heap_reachable_update:
  "heap_reachable p \<Longrightarrow> reachable r \<Longrightarrow> heap p1 = (heap p)(ref \<mapsto> r) \<Longrightarrow> heap_reachable p1"
  by (simp add: heap_reachable_def)

lemma heap_reachable_addRegion:
  assumes "heap_reachable p"
  shows "heap_reachable (exec (AddRegion options rnd h) p)"
proof (cases "wavesurfer p")
  case None
  then show ?thesis using assms by (simp add: addRegion_def)
next
  case (Some ws)
  have c: "reachable (Region options (ws_duration ws) (nullish (ws_numberOfChannels ws) 0) rnd h)"
    by (rule reachable.constructed)
  show ?thesis
  proof (cases "ws_duration ws = 0")
    case True
    show ?thesis
      using c True
      by (intro heap_reachable_update[OF assms c]) (simp add: addRegion_deferred[OF Some True])
  next
    case False
    show ?thesis
      by (intro heap_reachable_update[OF assms c])
        (simp add: addRegion_saved[OF Some False] saveRegion_fields)
  qed
qed

lemma heap_reachable_dragSelectionStart:
  assumes "heap_reachable p"
  shows "heap_reachable (dragSelectionStart i x rnd h p)"
proof (cases "i < length (dragSelections p)")
  case False
  then show ?thesis using assms by (simp add: dragSelectionStart_def)
next
  case True
  show ?thesis
  proof (cases "wavesurfer p")
    case None
    show ?thesis
      by (rule heap_reachable_same[OF _ assms]) (simp add: dragSelectionStart_def True None Let_def)
  next
    case (Some ws)
    let ?r = "Region ((ds_options ((dragSelections p ! i)\<lparr>ds_startX := x\<rparr>))
                 \<lparr>p_start := (x / ws_wrapperWidth ws) * ws_duration ws,
                   p_end := Some (((x + 5) / ws_wrapperWidth ws) * ws_duration ws)\<rparr>)
               (ws_duration ws) (nullish (ws_numberOfChannels ws) 0) rnd h"
    have c: "reachable ?r" by (rule reachable.constructed)
    show ?thesis
      by (rule heap_reachable_update[OF assms c, where ref = "nextRef p"])
        (simp add: dragSelectionStart_def True Some Let_def allocRegion_def)
  qed
qed

lemma heap_reachable_dragSelectionDrag:
  assumes "heap_reachable p"
  shows "heap_reachable (dragSelectionDrag i dx x pw p)"
proof (cases "i < length (dragSelections p)")
  case False
  then show ?thesis using assms by (simp add: dragSelectionDrag_def)
next
  case True
  show ?thesis
  proof (cases "ds_region (dragSelections p ! i)")
    case None
    then show ?thesis using assms True by (simp add: dragSelectionDrag_def)
  next
    case (Some region)
    show ?thesis
    proof (cases "heap p region")
      case None
      then show ?thesis using assms True Some by (simp add: dragSelectionDrag_def)
    next
      case (Some r)
      let ?sd = "if x > ds_startX (dragSelections p ! i) then Some End else Some Start"
      from assms Some have "reachable r" by (simp add: heap_reachable_def)
      then have "reachable (applyRegionOp (OpUpdate dx ?sd pw) r)" by (rule reachable.step)
      then have c: "reachable (onUpdate dx ?sd pw r)" by simp
      show ?thesis
        by (rule heap_reachable_update[OF assms c, where ref = region])
          (simp add: dragSelectionDrag_def True \<open>ds_region (dragSelections p ! i) = Some region\<close> Some)
    qed
  qed
qed

lemma heap_reachable_readyHandler:
  assumes "heap_reachable p"
  shows "heap_reachable (readyHandler d p ref)"
proof (cases "heap p ref")
  case None
  show ?thesis
    by (rule heap_reachable_same[OF _ assms]) (simp add: readyHandler_def None saveRegion_fields)
next
  case (Some r)
  from assms Some have "reachable r" by (simp add: heap_reachable_def)
  then have "reachable (applyRegionOp (OpSetTotalDuration d) r)" by (rule reachable.step)
  then have c: "reachable (setTotalDuration d r)" by simp
  show ?thesis
    by (rule heap_reachable_update[OF assms c, where ref = ref])
      (simp add: readyHandler_def Some saveRegion_fields)
qed

lemma heap_reachable_ready_fold:
  "heap_reachable p \<Longrightarrow> heap_reachable (foldl (readyHandler d) p refs)"
  by (induction refs arbitrary: p) (simp_all add: heap_reachable_readyHandler)

lemma heap_reachable_onRegion:
  assumes "heap_reachable p"
  shows "heap_reachable (onRegion ref op p)"
proof (cases "heap p ref")
  case None
  then show ?thesis using assms by (simp add: onRegion_def)
next
  case (Some r)
  from assms Some have "reachable r" by (simp add: heap_reachable_def)
  then have c: "reachable (applyRegionOp op r)" by (rule reachable.step)
  show ?thesis
    by (rule heap_reachable_update[OF assms c, where ref = ref])
      (simp add: onRegion_def Some Let_def)
qed

lemma heap_reachable_exec:
  assumes hr: "heap_reachable p"
  shows "heap_reachable (exec op p)"
proof (cases op)
  case (AddRegion options rnd h)
  show ?thesis unfolding AddRegion by (rule heap_reachable_addRegion[OF hr])
next
  case (EnableDragSelection options th)
  show ?thesis unfolding EnableDragSelection
    by (rule heap_reachable_same[OF _ hr]) (simp add: enableDragSelection_def split: option.splits)
next
  case (DragSelectionStart i x rnd h)
  show ?thesis unfolding DragSelectionStart by (simp add: heap_reachable_dragSelectionStart[OF hr])
next
  case (DragSelectionDrag i dx x pw)
  show ?thesis unfolding DragSelectionDrag by (simp add: heap_reachable_dragSelectionDrag[OF hr])
next
  case (DragSelectionEnd i)
  show ?thesis unfolding DragSelectionEnd
    by (rule heap_reachable_same[OF _ hr])
      (simp add: dragSelectionEnd_def saveRegion_fields Let_def split: option.splits)
next
  case (TimeUpdate t)
  have "heap (timeupdate t p) = heap p"
    by (simp add: timeupdate_def Let_def split: option.splits)
  then show ?thesis unfolding TimeUpdate
    by (simp add: heap_reachable_same[OF _ hr])
next
  case (Ready d)
  from hr have "heap_reachable (p\<lparr>readyOnce := []\<rparr>)" by (simp add: heap_reachable_def)
  then show ?thesis unfolding Ready by (simp add: onReady_def heap_reachable_ready_fold)
next
  case (OnRegion ref rop)
  show ?thesis unfolding OnRegion by (simp add: heap_reachable_onRegion[OF hr])
next
  case (RegionRemove ref)
  show ?thesis unfolding RegionRemove
    by (rule heap_reachable_same[OF _ hr]) (simp add: onRegionRemoved_def)
next
  case (HostChange ws)
  from hr show ?thesis unfolding HostChange by (simp add: heap_reachable_def)
qed

lemma heap_reachable_newPlugin: "heap_reachable newPlugin"
  by (simp add: heap_reachable_def newPlugin_def)

lemma plugin_regions_reachable:
  assumes "plugin_reachable p" and "heap p ref = Some r"
  shows "reachable r"
proof -
  from assms(1) have "heap_reachable p"
    by (induction rule: plugin_reachable.induct)
      (simp_all add: heap_reachable_newPlugin heap_reachable_exec)
  with assms(2) show ?thesis by (simp add: heap_reachable_def)
qed

text \<open>
  Claim C9. Every region that the repository constructs (in \<^verbatim>\<open>addRegion\<close> or in
  the drag selection) and then operates on has an empty \<^verbatim>\<open>regionsList\<close>; hence
  the overlap block leaves the tentative positions as they are with
  \<^verbatim>\<open>overlapWithAnotherRegion = false\<close>, and, for an element attached to a parent
  of positive width, a sample is committed exactly when the bounds-and-length test
  holds; for an element without a parent nothing is committed.
\<close>

theorem repository_regions_never_overlap:
  assumes "reachable r \<or> (plugin_reachable p \<and> heap p ref = Some r)"
  shows "regionsList r = []
       \<and> (\<forall>sd ns ne. overlapBlock r sd ns ne = (ns, ne, False))
       \<and> (\<forall>dx sd w. 0 < w \<longrightarrow>
             (emitted (onUpdate dx sd (Some w) r) \<noteq> emitted r)
               = spec_boundsTest r (spec_newStart r dx sd w) (spec_newEnd r dx sd w))
       \<and> (\<forall>dx sd. onUpdate dx sd None r = r)"
proof -
  from assms have "reachable r" by (auto intro: plugin_regions_reachable)
  then have nil: "regionsList r = []" by (rule reachable_regionsList)
  then have no: "\<not> spec_overlapEvent r ns ne" for ns ne
    by (rule no_neighbours_no_overlap)
  show ?thesis
    by (simp add: nil overlapBlock_no_overlap[OF no] onUpdate_no_overlap[OF no] commitState_fields
        onUpdate_detached)
qed

theorem repository_regions_never_overlap_witness:
  "plugin_reachable pausedPlugin
   \<and> heap pausedPlugin 0 = Some (Region (scenario_params 5 10) 100 2 ''region-a'' 0)
   \<and> regionsList (Region (scenario_params 5 10) 100 2 ''region-a'' 0) = []
   \<and> overlapBlock (Region (scenario_params 5 10) 100 2 ''region-a'' 0) (Some End) 15 120
       = (15, 120, False)
   \<and> (0::real) < 500
   \<and> spec_boundsTest (Region (scenario_params 5 10) 100 2 ''region-a'' 0) 15 20
   \<and> emitted (onUpdate 50 None (Some 500) (Region (scenario_params 5 10) 100 2 ''region-a'' 0))
       \<noteq> emitted (Region (scenario_params 5 10) 100 2 ''region-a'' 0)
   \<and> \<not> spec_boundsTest (Region (scenario_params 5 10) 100 2 ''region-a'' 0) 105 110
   \<and> emitted (onUpdate 500 None (Some 500) (Region (scenario_params 5 10) 100 2 ''region-a'' 0))
       = emitted (Region (scenario_params 5 10) 100 2 ''region-a'' 0)"
proof -
  let ?A = "Region (scenario_params 5 10) 100 2 ''region-a'' 0"
  have fa: "start ?A = 5" "end' ?A = 10" "totalDuration ?A = 100" "minLength ?A = 0"
    "maxLength ?A = None"
    by (simp_all add: Region_fields scenario_params_def clampPosition_def nullish_def)
  have w: "(0::real) < 500" by simp
  have ns: "spec_newStart ?A 50 None 500 = 15" "spec_newEnd ?A 50 None 500 = 20"
    "spec_newStart ?A 500 None 500 = 105" "spec_newEnd ?A 500 None 500 = 110"
    by (simp_all add: spec_newStart_def spec_newEnd_def fa)
  have bt: "spec_boundsTest ?A 15 20" "\<not> spec_boundsTest ?A 105 110"
    by (simp_all add: spec_boundsTest_def fa le_maxLength_def)
  have "plugin_reachable (exec (HostChange (Some host_paused)) newPlugin)"
    by (rule plugin_reachable.exec_step) (rule plugin_reachable.created)
  then have "plugin_reachable (exec (AddRegion (scenario_params 5 10) ''region-a'' 0)
                (exec (HostChange (Some host_paused)) newPlugin))"
    by (rule plugin_reachable.exec_step)
  then have pr: "plugin_reachable pausedPlugin"
    by (simp add: pausedPlugin_def)
  have hp: "heap pausedPlugin 0 = Some (Region (scenario_params 5 10) 100 2 ''region-a'' 0)"
    by (rule pausedPlugin_fields)
  have h: "reachable (Region (scenario_params 5 10) 100 2 ''region-a'' 0)
           \<or> (plugin_reachable pausedPlugin
               \<and> heap pausedPlugin 0 = Some (Region (scenario_params 5 10) 100 2 ''region-a'' 0))"
    using pr hp by simp
  from repository_regions_never_overlap[OF h]
  have iff: "(emitted (onUpdate dx None (Some 500) ?A) \<noteq> emitted ?A)
      = spec_boundsTest ?A (spec_newStart ?A dx None 500) (spec_newEnd ?A dx None 500)" for dx
    using w by blast
  have acc: "emitted (onUpdate 50 None (Some 500) ?A) \<noteq> emitted ?A"
    using iff[of 50] bt by (simp add: ns)
  have rej: "emitted (onUpdate 500 None (Some 500) ?A) = emitted ?A"
    using iff[of 500] bt by (simp add: ns)
  show ?thesis
    using repository_regions_never_overlap[OF h] pr hp bt acc rej by simp
qed

end
